theory Spec2Isabelle
  imports Main
begin

section \<open>Paths: Go's path/filepath on a Unix target\<close>

text \<open>
  The adapter in src/export/api.go computes every path with filepath.Join, filepath.Dir
  and filepath.Base. A Go string is a byte sequence, and so is a HOL \<open>string\<close>. The
  separator is the slash and there is no volume name. filepath.Clean is given on path
  elements: the standard library walks the bytes, skips empty elements and \<open>.\<close>, lets
  \<open>..\<close> remove the last real element (never the leading slash, never a leading run of
  \<open>..\<close>), and writes the surviving elements with single slashes between them.
\<close>

fun split_slash :: "string \<Rightarrow> string list" where
  "split_slash [] = [[]]"
| "split_slash (c # cs) =
     (if c = CHR ''/'' then [] # split_slash cs
      else (case split_slash cs of [] \<Rightarrow> [[c]] | e # es \<Rightarrow> (c # e) # es))"

fun join_slash :: "string list \<Rightarrow> string" where
  "join_slash [] = []"
| "join_slash [e] = e"
| "join_slash (e # f # es) = e @ CHR ''/'' # join_slash (f # es)"

text \<open>
  One element of Clean's loop. The elements written so far are kept last-first. An
  element \<open>..\<close> can backtrack exactly when the last element written is a real one.
\<close>

definition clean_elem :: "bool \<Rightarrow> string list \<Rightarrow> string \<Rightarrow> string list" where
  "clean_elem rooted out e =
     (if e = [] \<or> e = ''.'' then out
      else if e = ''..'' then
        (if out \<noteq> [] \<and> hd out \<noteq> ''..'' then tl out
         else if \<not> rooted then ''..'' # out
         else out)
      else e # out)"

definition Clean :: "string \<Rightarrow> string" where
  "Clean path =
     (if path = [] then ''.''
      else
        let rooted = (hd path = CHR ''/'');
            out = rev (foldl (clean_elem rooted) [] (split_slash path))
        in if rooted then CHR ''/'' # join_slash out
           else if out = [] then ''.''
           else join_slash out)"

text \<open>filepath.Join of two elements: the first non-empty element on, joined and cleaned.\<close>

definition Join :: "string \<Rightarrow> string \<Rightarrow> string" where
  "Join a b =
     (if a \<noteq> [] then Clean (a @ CHR ''/'' # b)
      else if b \<noteq> [] then Clean b
      else [])"

text \<open>filepath.Dir: everything up to and including the last slash, cleaned.\<close>

definition Dir :: "string \<Rightarrow> string" where
  "Dir path = Clean (rev (dropWhile (\<lambda>c. c \<noteq> CHR ''/'') (rev path)))"

text \<open>filepath.Base: trailing slashes stripped, then the part after the last slash.\<close>

definition Base :: "string \<Rightarrow> string" where
  "Base path =
     (if path = [] then ''.''
      else
        let stripped = rev (dropWhile (\<lambda>c. c = CHR ''/'') (rev path));
            elem = rev (takeWhile (\<lambda>c. c \<noteq> CHR ''/'') (rev stripped))
        in if elem = [] then ''/'' else elem)"

text \<open>
  A path element proper, the absolute path made of a list of elements, and the paths that
  are absolute and already clean.
\<close>

definition elem :: "string \<Rightarrow> bool" where
  "elem c \<longleftrightarrow> c \<noteq> [] \<and> CHR ''/'' \<notin> set c \<and> c \<noteq> ''.'' \<and> c \<noteq> ''..''"

definition abs_path :: "string list \<Rightarrow> string" where
  "abs_path cs = CHR ''/'' # join_slash cs"

definition absolute :: "string \<Rightarrow> bool" where
  "absolute p \<longleftrightarrow> p \<noteq> [] \<and> hd p = CHR ''/'' \<and> Clean p = p"

text \<open>The length that a list of elements takes when each is written with a slash.\<close>

definition weight :: "string list \<Rightarrow> nat" where
  "weight es = sum_list (map (\<lambda>e. Suc (length e)) es)"

section \<open>Errors\<close>

text \<open>
  Modelled from the spec: internal/errs is not among the sources. The constructors are
  the failure classes of the spec's taxonomy (NotFound, NotADirectory, NotAFile,
  NotImplemented, the configuration error as a formatted message, and a failure that a
  backend produces itself), with the two wrappers of github.com/pkg/errors that api.go
  applies to them.
\<close>

datatype error =
    ObjectNotFound
  | NotFolder
  | NotFile
  | NotImplement
  | Errorf string
  | DriverError string
  | WithMessage error string
  | WithStack error

fun Cause :: "error \<Rightarrow> error" where
  "Cause (WithMessage e m) = Cause e"
| "Cause (WithStack e) = Cause e"
| "Cause e = e"

text \<open>
  Modelled from the spec: internal/errs is not among the sources. The spec's NotFound
  class is a failure whose cause, under any wrapping with context, is the not-found
  sentinel.
\<close>

definition IsObjectNotFound :: "error \<Rightarrow> bool" where
  "IsObjectNotFound err = (Cause err = ObjectNotFound)"

text \<open>errors.Wrapf attaches a message and a stack.\<close>

definition Wrapf :: "error \<Rightarrow> string \<Rightarrow> error" where
  "Wrapf err msg = WithStack (WithMessage err msg)"

text \<open>errors.WithStack of a nil error is nil.\<close>

definition WithStack_opt :: "error option \<Rightarrow> error option" where
  "WithStack_opt err = map_option WithStack err"

section \<open>Object descriptors\<close>

type_synonym time = nat
type_synonym bytes = string

record Object =
  ID :: string
  Path :: string
  Name :: string
  Size :: int
  Modified :: time
  Ctime :: time
  IsFolder :: bool

text \<open>
  Modelled from the spec: internal/model is not among the sources. A descriptor carries
  an identity (an opaque ID or a native path), a display name, a size, a modification
  and a creation time and the is-directory flag; the record has the fields that api.go
  sets in lines 109 to 114 and 166 to 180. A descriptor is such an object or a wrapper
  that attaches a display name to another descriptor without copying it.
\<close>

datatype Obj = ObjectPtr Object | ObjWrapName string Obj

fun GetName :: "Obj \<Rightarrow> string" where
  "GetName (ObjectPtr x) = Name x"
| "GetName (ObjWrapName n x) = n"

fun IsDir :: "Obj \<Rightarrow> bool" where
  "IsDir (ObjectPtr x) = IsFolder x"
| "IsDir (ObjWrapName n x) = IsDir x"

fun GetPath :: "Obj \<Rightarrow> string" where
  "GetPath (ObjectPtr x) = Path x"
| "GetPath (ObjWrapName n x) = GetPath x"

fun GetID :: "Obj \<Rightarrow> string" where
  "GetID (ObjectPtr x) = ID x"
| "GetID (ObjWrapName n x) = GetID x"

fun GetSize :: "Obj \<Rightarrow> int" where
  "GetSize (ObjectPtr x) = Size x"
| "GetSize (ObjWrapName n x) = GetSize x"

fun ModTime :: "Obj \<Rightarrow> time" where
  "ModTime (ObjectPtr x) = Modified x"
| "ModTime (ObjWrapName n x) = ModTime x"

fun UnwrapObj :: "Obj \<Rightarrow> Obj" where
  "UnwrapObj (ObjWrapName n x) = x"
| "UnwrapObj x = x"

text \<open>
  Modelled from the spec: after a listing and after a direct lookup each descriptor is
  wrapped under a display name made from its own name. The mapping of names is
  configuration that is not among the sources, so it is a parameter.
\<close>

definition WrapObjName :: "(string \<Rightarrow> string) \<Rightarrow> Obj \<Rightarrow> Obj" where
  "WrapObjName mappingName obj = ObjWrapName (mappingName (GetName obj)) obj"

definition WrapObjsName :: "(string \<Rightarrow> string) \<Rightarrow> Obj list \<Rightarrow> Obj list" where
  "WrapObjsName mappingName objs = map (WrapObjName mappingName) objs"

record FileStream =
  Obj :: Obj
  Reader :: bytes

section \<open>The storage backend\<close>

text \<open>
  Modelled from the spec: internal/driver is not among the sources. The fields are the
  backend capability contract of the spec, under the names of the interfaces that api.go
  asserts. \<open>Storage\<close> is a package variable of the interface type. Every call goes
  to a remote store, so each method takes the backend's state \<open>'s\<close> and returns the
  new one with its result. An optional capability, which api.go detects with a type
  assertion, is an optional field. A method that returns an extra result with its error
  returns the pair; the Go caller drops the first component.

  A transfer link stands for the bytes it serves.
\<close>

type_synonym Link = bytes

record 's Driver =
  driver_Unmarshal :: "string \<Rightarrow> 's \<Rightarrow> error option \<times> 's"
  driver_Init :: "'s \<Rightarrow> error option \<times> 's"
  driver_Modified :: "'s \<Rightarrow> time"
  driver_MappingName :: "string \<Rightarrow> string"
  driver_List :: "Obj \<Rightarrow> 's \<Rightarrow> (error + Obj list) \<times> 's"
  driver_Link :: "Obj \<Rightarrow> 's \<Rightarrow> (error + Link) \<times> 's"
  driver_Getter :: "(string \<Rightarrow> 's \<Rightarrow> (error + Obj) \<times> 's) option"
  driver_GetRooter :: "('s \<Rightarrow> (error + Obj option) \<times> 's) option"
  driver_IRootId :: "('s \<Rightarrow> string) option"
  driver_IRootPath :: "('s \<Rightarrow> string) option"
  driver_Remove :: "(Obj \<Rightarrow> 's \<Rightarrow> error option \<times> 's) option"
  driver_PutResult :: "(Obj \<Rightarrow> FileStream \<Rightarrow> 's \<Rightarrow> (Obj option \<times> error option) \<times> 's) option"
  driver_Put :: "(Obj \<Rightarrow> FileStream \<Rightarrow> 's \<Rightarrow> error option \<times> 's) option"
  driver_MkdirResult :: "(Obj \<Rightarrow> string \<Rightarrow> 's \<Rightarrow> (Obj option \<times> error option) \<times> 's) option"
  driver_Mkdir :: "(Obj \<Rightarrow> string \<Rightarrow> 's \<Rightarrow> error option \<times> 's) option"

section \<open>The adapter (src/export/api.go)\<close>

definition baseDir :: string where
  "baseDir = ''/juicefs''"

definition RootName :: string where
  "RootName = ''root''"

definition root_missing :: error where
  "root_missing = Errorf ''please implement IRootPath or IRootId or GetRooter method''"

text \<open>
  The first block of \<open>get\<close> (lines 144 to 152): the direct lookup. It returns the path
  that the rest of \<open>get\<close> goes on with, the descriptor when the lookup succeeded, and
  the backend's state. The error of a failed lookup is dropped.
\<close>

definition direct_get :: "'s Driver \<Rightarrow> string \<Rightarrow> 's \<Rightarrow> string \<times> Obj option \<times> 's" where
  "direct_get b path s =
     (case driver_Getter b of
        None \<Rightarrow> (path, None, s)
      | Some g \<Rightarrow>
          let path' = (if path \<noteq> baseDir then Join baseDir path else path)
          in (case g path' s of
                (Inr obj, s') \<Rightarrow> (path', Some (WrapObjName (driver_MappingName b) obj), s')
              | (Inl err, s') \<Rightarrow> (path', None, s')))"

text \<open>
  The block under \<open>if path == "/"\<close> (lines 155 to 192). A root getter may return no
  descriptor without an error; the check of line 185 turns that into the same failure
  as a backend with no root strategy.
\<close>

definition root_folder :: "'s Driver \<Rightarrow> 's \<Rightarrow> (error + Obj) \<times> 's" where
  "root_folder b s =
     (case driver_GetRooter b of
        Some getRoot \<Rightarrow>
          (case getRoot s of
             (Inl err, s') \<Rightarrow> (Inl (WithMessage err ''failed get root obj''), s')
           | (Inr None, s') \<Rightarrow> (Inl root_missing, s')
           | (Inr (Some obj), s') \<Rightarrow> (Inr (ObjWrapName RootName obj), s'))
      | None \<Rightarrow>
          (case driver_IRootId b of
             Some getRootId \<Rightarrow>
               (Inr (ObjWrapName RootName (ObjectPtr
                  \<lparr>ID = getRootId s, Path = [], Name = RootName, Size = 0,
                   Modified = driver_Modified b s, Ctime = 0, IsFolder = True\<rparr>)), s)
           | None \<Rightarrow>
               (case driver_IRootPath b of
                  Some getRootPath \<Rightarrow>
                    (Inr (ObjWrapName RootName (ObjectPtr
                       \<lparr>ID = [], Path = getRootPath s, Name = RootName, Size = 0,
                        Modified = driver_Modified b s, Ctime = 0, IsFolder = True\<rparr>)), s)
                | None \<Rightarrow> (Inl root_missing, s))))"

text \<open>The parent of a path, as \<open>get\<close> and \<open>mkdir\<close> compute it (lines 194 and 215).\<close>

definition parent_of :: "string \<Rightarrow> string" where
  "parent_of path = (let p = Dir path in if p = ''.'' then ''/'' else p)"

text \<open>The scan of lines 204 to 209: the first entry with the name.\<close>

definition scan :: "string \<Rightarrow> Obj list \<Rightarrow> error + Obj" where
  "scan realName files =
     (case find (\<lambda>f. GetName f = realName) files of
        Some f \<Rightarrow> Inr f
      | None \<Rightarrow> Inl (WithStack ObjectNotFound))"

text \<open>
  \<open>get\<close> and \<open>list\<close> call each other, and nothing in the code bounds the recursion.
  The first argument bounds the depth of the calls: \<open>None\<close> says that the bound was
  reached before the call returned. A call made alone, which is all this model
  describes, goes through \<open>listG.Do\<close> by running its function.
\<close>

fun get :: "nat \<Rightarrow> 's Driver \<Rightarrow> string \<Rightarrow> 's \<Rightarrow> ((error + Obj) \<times> 's) option"
  and list :: "nat \<Rightarrow> 's Driver \<Rightarrow> string \<Rightarrow> 's \<Rightarrow> ((error + Obj list) \<times> 's) option"
where
  "get 0 b path0 s0 = None"
| "get (Suc n) b path0 s0 =
     (case direct_get b path0 s0 of
        (path, Some obj, s) \<Rightarrow> Some (Inr obj, s)
      | (path, None, s) \<Rightarrow>
          if path = ''/'' then Some (root_folder b s)
          else
            (case list n b (parent_of path) s of
               None \<Rightarrow> None
             | Some (Inl err, s') \<Rightarrow> Some (Inl (WithMessage err ''failed get parent list''), s')
             | Some (Inr files, s') \<Rightarrow> Some (scan (Base path) files, s')))"
| "list 0 b dir s = None"
| "list (Suc n) b dir s =
     (case get n b dir s of
        None \<Rightarrow> None
      | Some (Inl err, s') \<Rightarrow> Some (Inl err, s')
      | Some (Inr d, s') \<Rightarrow>
          if \<not> IsDir d then Some (Inl (WithStack NotFolder), s')
          else
            (case driver_List b d s' of
               (Inl err, s'') \<Rightarrow> Some (Inl (Wrapf err ''failed to list objs''), s'')
             | (Inr files, s'') \<Rightarrow> Some (Inr (WrapObjsName (driver_MappingName b) files), s'')))"

text \<open>The type switch of lines 234 to 241.\<close>

definition MakeDir :: "'s Driver \<Rightarrow> Obj \<Rightarrow> string \<Rightarrow> 's \<Rightarrow> error option \<times> 's" where
  "MakeDir b parent realDir s =
     (case driver_MkdirResult b of
        Some mk \<Rightarrow> (case mk parent realDir s of ((obj, err), s') \<Rightarrow> (WithStack_opt err, s'))
      | None \<Rightarrow>
          (case driver_Mkdir b of
             Some mk \<Rightarrow> (case mk parent realDir s of (err, s') \<Rightarrow> (WithStack_opt err, s'))
           | None \<Rightarrow> (Some NotImplement, s)))"

fun mkdir :: "nat \<Rightarrow> 's Driver \<Rightarrow> string \<Rightarrow> 's \<Rightarrow> (error option \<times> 's) option" where
  "mkdir 0 b dir s = None"
| "mkdir (Suc n) b dir s =
     (case get n b (parent_of dir) s of
        None \<Rightarrow> None
      | Some (Inr parent, s1) \<Rightarrow> Some (MakeDir b parent (Base dir) s1)
      | Some (Inl err, s1) \<Rightarrow>
          if IsObjectNotFound err then
            (case mkdir n b (parent_of dir) s1 of
               None \<Rightarrow> None
             | Some (Some err', s2) \<Rightarrow> Some (Some err', s2)
             | Some (None, s2) \<Rightarrow>
                 (case get n b (parent_of dir) s2 of
                    None \<Rightarrow> None
                  | Some (Inl err', s3) \<Rightarrow> Some (Some err', s3)
                  | Some (Inr parent, s3) \<Rightarrow> Some (MakeDir b parent (Base dir) s3)))
          else Some (Some err, s1))"

text \<open>
  \<open>New\<close>: the configuration is decoded into the backend, the backend is initialised,
  and the namespace prefix is created. The adapter value itself has no fields, so the
  result is the error alone.
\<close>

definition New :: "nat \<Rightarrow> 's Driver \<Rightarrow> string \<Rightarrow> 's \<Rightarrow> (error option \<times> 's) option" where
  "New n b addition s =
     (case driver_Unmarshal b addition s of
        (Some err, s1) \<Rightarrow> Some (Some err, s1)
      | (None, s1) \<Rightarrow>
          (case driver_Init b s1 of
             (Some err, s2) \<Rightarrow> Some (Some err, s2)
           | (None, s2) \<Rightarrow> mkdir n b baseDir s2))"

definition Delete :: "nat \<Rightarrow> 's Driver \<Rightarrow> string \<Rightarrow> 's \<Rightarrow> (error option \<times> 's) option" where
  "Delete n b name s =
     (case get n b (Join baseDir name) s of
        None \<Rightarrow> None
      | Some (Inl err, s1) \<Rightarrow>
          if IsObjectNotFound err then Some (None, s1)
          else Some (Some (WithMessage err ''failed to get object''), s1)
      | Some (Inr rawObj, s1) \<Rightarrow>
          (case driver_Remove b of
             Some remove \<Rightarrow> Some (remove (UnwrapObj rawObj) s1)
           | None \<Rightarrow> Some (Some NotImplement, s1)))"

text \<open>
  Modelled from the spec: internal/stream is not among the sources. A located object and
  its transfer link are wrapped as a range-readable stream, and a range read returns the
  byte-range view from the offset, of the length asked for, over it.
\<close>

record SeekableStream =
  stream_Obj :: Obj
  stream_Link :: Link

definition NewSeekableStream :: "Obj \<Rightarrow> Link \<Rightarrow> error + SeekableStream" where
  "NewSeekableStream file link = Inr \<lparr>stream_Obj = file, stream_Link = link\<rparr>"

definition RangeRead :: "SeekableStream \<Rightarrow> int \<Rightarrow> int \<Rightarrow> error + bytes" where
  "RangeRead ss off limit = Inr (take (nat limit) (drop (nat off) (stream_Link ss)))"

definition Read :: "nat \<Rightarrow> 's Driver \<Rightarrow> string \<Rightarrow> int \<Rightarrow> int \<Rightarrow> 's \<Rightarrow> ((error + bytes) \<times> 's) option" where
  "Read n b name off limit s =
     (case get n b (Join baseDir name) s of
        None \<Rightarrow> None
      | Some (Inl err, s1) \<Rightarrow> Some (Inl (WithMessage err ''failed to get file''), s1)
      | Some (Inr file, s1) \<Rightarrow>
          if IsDir file then Some (Inl (WithStack NotFile), s1)
          else
            (case driver_Link b file s1 of
               (Inl err, s2) \<Rightarrow> Some (Inl err, s2)
             | (Inr link, s2) \<Rightarrow>
                 (case NewSeekableStream file link of
                    Inl err \<Rightarrow> Some (Inl (WithMessage err ''failed get [%s] stream''), s2)
                  | Inr ss \<Rightarrow>
                      (case RangeRead ss off limit of
                         Inl err \<Rightarrow> Some (Inl err, s2)
                       | Inr reader \<Rightarrow> Some (Inr reader, s2)))))"

text \<open>
  \<open>Put\<close>. The body is what io.ReadAll makes of the reader: its bytes or its error. The
  two readings of the clock are arguments. The progress callback does nothing and is
  left out. \<open>upload\<close> is the stream of lines 109 to 119.
\<close>

definition upload :: "string \<Rightarrow> bytes \<Rightarrow> time \<Rightarrow> time \<Rightarrow> FileStream" where
  "upload realName data now1 now2 =
     \<lparr>Obj = ObjectPtr \<lparr>ID = [], Path = [], Name = realName, Size = int (length data),
                         Modified = now1, Ctime = now2, IsFolder = False\<rparr>,
      Reader = data\<rparr>"

definition Put :: "nat \<Rightarrow> 's Driver \<Rightarrow> string \<Rightarrow> error + bytes \<Rightarrow> time \<Rightarrow> time \<Rightarrow> 's \<Rightarrow> (error option \<times> 's) option" where
  "Put n b name0 body now1 now2 s =
     (case body of
        Inl err \<Rightarrow> Some (Some err, s)
      | Inr data \<Rightarrow>
          let name = Join baseDir name0;
              dir = Dir name;
              realName = Base name;
              stream = upload realName data now1 now2
          in (case mkdir n b dir s of
                None \<Rightarrow> None
              | Some (Some err, s1) \<Rightarrow> Some (Some (WithMessage err ''failed to make dir [/juicefs]''), s1)
              | Some (None, s1) \<Rightarrow>
                  (case get n b dir s1 of
                     None \<Rightarrow> None
                   | Some (Inl err, s2) \<Rightarrow> Some (Some (WithMessage err ''failed to get dir [/juicefs]''), s2)
                   | Some (Inr parentDir, s2) \<Rightarrow>
                       (case driver_PutResult b of
                          Some put \<Rightarrow>
                            (case put parentDir stream s2 of ((res, err), s3) \<Rightarrow> Some (WithStack_opt err, s3))
                        | None \<Rightarrow>
                            (case driver_Put b of
                               Some put \<Rightarrow>
                                 (case put parentDir stream s2 of (err, s3) \<Rightarrow> Some (WithStack_opt err, s3))
                             | None \<Rightarrow> Some (Some NotImplement, s2))))))"

section \<open>A backend in memory\<close>

text \<open>
  A store to run the adapter on: a list of entries, each with the path of the directory
  it lies in, and the list of the calls that the backend has received. It declares a
  root path, lists a directory in the order of creation, and implements the plain
  variants of Put and MakeDir. With \<open>strict\<close> it refuses to create a directory whose
  name is taken; with \<open>direct\<close> it also implements the direct getter, which finds an
  entry by its full path.
\<close>

datatype Call =
    CallList string
  | CallLink string
  | CallGet string
  | CallMakeDir string string
  | CallPut string string
  | CallRemove string

record Entry =
  entry_Parent :: string
  entry_Obj :: Object
  entry_Data :: bytes

record Store =
  entries :: "Entry list"
  calls :: "Call list"

definition child_path :: "string \<Rightarrow> string \<Rightarrow> string" where
  "child_path parent name = (if parent = ''/'' then CHR ''/'' # name else parent @ CHR ''/'' # name)"

definition logged :: "Call \<Rightarrow> Store \<Rightarrow> Store" where
  "logged c s = s\<lparr>calls := calls s @ [c]\<rparr>"

definition mem_List :: "Obj \<Rightarrow> Store \<Rightarrow> (error + Obj list) \<times> Store" where
  "mem_List d s =
     (Inr (map (\<lambda>e. ObjectPtr (entry_Obj e))
             (filter (\<lambda>e. entry_Parent e = GetPath d) (entries s))),
      logged (CallList (GetPath d)) s)"

definition mem_Link :: "Obj \<Rightarrow> Store \<Rightarrow> (error + Link) \<times> Store" where
  "mem_Link file s =
     (case find (\<lambda>e. Path (entry_Obj e) = GetPath file) (entries s) of
        Some e \<Rightarrow> Inr (entry_Data e)
      | None \<Rightarrow> Inl ObjectNotFound,
      logged (CallLink (GetPath file)) s)"

definition mem_Get :: "string \<Rightarrow> Store \<Rightarrow> (error + Obj) \<times> Store" where
  "mem_Get path s =
     (case find (\<lambda>e. Path (entry_Obj e) = path) (entries s) of
        Some e \<Rightarrow> Inr (ObjectPtr (entry_Obj e))
      | None \<Rightarrow> Inl ObjectNotFound,
      logged (CallGet path) s)"

definition mem_Remove :: "Obj \<Rightarrow> Store \<Rightarrow> error option \<times> Store" where
  "mem_Remove obj s =
     (None,
      logged (CallRemove (GetPath obj))
        (s\<lparr>entries := filter (\<lambda>e. Path (entry_Obj e) \<noteq> GetPath obj) (entries s)\<rparr>))"

definition file_entry :: "string \<Rightarrow> string \<Rightarrow> int \<Rightarrow> time \<Rightarrow> bytes \<Rightarrow> Entry" where
  "file_entry parent name sz modified data =
     \<lparr>entry_Parent = parent,
      entry_Obj = \<lparr>ID = [], Path = child_path parent name, Name = name, Size = sz,
                   Modified = modified, Ctime = 0, IsFolder = False\<rparr>,
      entry_Data = data\<rparr>"

definition dir_entry :: "string \<Rightarrow> string \<Rightarrow> Entry" where
  "dir_entry parent name =
     \<lparr>entry_Parent = parent,
      entry_Obj = \<lparr>ID = [], Path = child_path parent name, Name = name, Size = 0,
                   Modified = 0, Ctime = 0, IsFolder = True\<rparr>,
      entry_Data = []\<rparr>"

definition mem_Put :: "Obj \<Rightarrow> FileStream \<Rightarrow> Store \<Rightarrow> error option \<times> Store" where
  "mem_Put parent stream s =
     (let name = GetName (Obj stream);
          e = file_entry (GetPath parent) name (GetSize (Obj stream)) (ModTime (Obj stream))
                (Reader stream)
      in (None,
          logged (CallPut (GetPath parent) name)
            (s\<lparr>entries :=
                 filter (\<lambda>e'. Path (entry_Obj e') \<noteq> Path (entry_Obj e)) (entries s) @ [e]\<rparr>)))"

definition mem_MakeDir :: "bool \<Rightarrow> Obj \<Rightarrow> string \<Rightarrow> Store \<Rightarrow> error option \<times> Store" where
  "mem_MakeDir strict parent name s =
     (let e = dir_entry (GetPath parent) name
      in if strict \<and> find (\<lambda>e'. Path (entry_Obj e') = Path (entry_Obj e)) (entries s) \<noteq> None
         then (Some (DriverError ''file exists''), logged (CallMakeDir (GetPath parent) name) s)
         else (None, logged (CallMakeDir (GetPath parent) name) (s\<lparr>entries := entries s @ [e]\<rparr>)))"

definition mem :: "bool \<Rightarrow> bool \<Rightarrow> Store Driver" where
  "mem strict direct =
     \<lparr>driver_Unmarshal = (\<lambda>addition s. (None, s)),
      driver_Init = (\<lambda>s. (None, s)),
      driver_Modified = (\<lambda>s. 0),
      driver_MappingName = (\<lambda>name. name),
      driver_List = mem_List,
      driver_Link = mem_Link,
      driver_Getter = (if direct then Some mem_Get else None),
      driver_GetRooter = None,
      driver_IRootId = None,
      driver_IRootPath = Some (\<lambda>s. ''/''),
      driver_Remove = Some mem_Remove,
      driver_PutResult = None,
      driver_Put = Some mem_Put,
      driver_MkdirResult = None,
      driver_Mkdir = Some (mem_MakeDir strict)\<rparr>"

text \<open>
  Variants of the backend: one whose result-returning Put and MakeDir work while the plain
  ones fail, one whose result-returning MakeDir refuses to create a directory twice, one
  with neither variant, and backends with other root strategies.
\<close>

definition mem_PutResult :: "Obj \<Rightarrow> FileStream \<Rightarrow> Store \<Rightarrow> (Obj option \<times> error option) \<times> Store" where
  "mem_PutResult parent stream s = (case mem_Put parent stream s of (err, s') \<Rightarrow> ((None, err), s'))"

definition mem_MkdirResult :: "Obj \<Rightarrow> string \<Rightarrow> Store \<Rightarrow> (Obj option \<times> error option) \<times> Store" where
  "mem_MkdirResult parent name s =
     (case mem_MakeDir False parent name s of (err, s') \<Rightarrow> ((None, err), s'))"

definition mem_both :: "Store Driver" where
  "mem_both =
     (mem False False)
       \<lparr>driver_PutResult := Some mem_PutResult,
        driver_Put := Some (\<lambda>parent stream s. (Some (DriverError ''plain Put''), s)),
        driver_MkdirResult := Some mem_MkdirResult,
        driver_Mkdir := Some (\<lambda>parent name s. (Some (DriverError ''plain MakeDir''), s))\<rparr>"

definition mem_MkdirResult_strict :: "Obj \<Rightarrow> string \<Rightarrow> Store \<Rightarrow> (Obj option \<times> error option) \<times> Store" where
  "mem_MkdirResult_strict parent name s =
     (case mem_MakeDir True parent name s of (err, s') \<Rightarrow> ((None, err), s'))"

definition mem_strict_result :: "Store Driver" where
  "mem_strict_result =
     (mem True False)
       \<lparr>driver_MkdirResult := Some mem_MkdirResult_strict,
        driver_Mkdir := Some (\<lambda>parent name s. (Some (DriverError ''plain MakeDir''), s))\<rparr>"

definition mem_no_Put :: "bool \<Rightarrow> Store Driver" where
  "mem_no_Put strict = (mem strict False)\<lparr>driver_Put := None\<rparr>"

definition mem_no_Mkdir :: "Store Driver" where
  "mem_no_Mkdir = (mem False False)\<lparr>driver_Mkdir := None\<rparr>"

definition mem_no_Remove :: "Store Driver" where
  "mem_no_Remove = (mem False False)\<lparr>driver_Remove := None\<rparr>"

definition mem_rooter :: "error + Obj option \<Rightarrow> Store Driver" where
  "mem_rooter r =
     (mem False False)
       \<lparr>driver_GetRooter := Some (\<lambda>s. (r, s)), driver_IRootId := Some (\<lambda>s. ''42'')\<rparr>"

definition mem_root_id :: "Store Driver" where
  "mem_root_id = (mem False False)\<lparr>driver_IRootId := Some (\<lambda>s. ''42'')\<rparr>"

definition mem_no_root :: "Store Driver" where
  "mem_no_root = (mem False False)\<lparr>driver_IRootPath := None\<rparr>"

definition root_dir :: Obj where
  "root_dir =
     ObjWrapName RootName (ObjectPtr
       \<lparr>ID = [], Path = ''/'', Name = RootName, Size = 0, Modified = 0, Ctime = 0,
        IsFolder = True\<rparr>)"

definition juicefs_dir :: Obj where
  "juicefs_dir = ObjWrapName ''juicefs'' (ObjectPtr (entry_Obj (dir_entry ''/'' ''juicefs'')))"

definition top :: Obj where
  "top = ObjectPtr (entry_Obj (dir_entry [] ''top''))"

text \<open>
  What the resolution of a path comes to on this backend without the direct getter, told
  on the entries alone: the entries that a directory lists, the first entry of a name in
  a directory, the descriptor that \<open>list\<close> shows for an entry, the walk from the root
  along the elements of a path (innermost element first), and the List calls that the
  walk makes.
\<close>

definition kids :: "Entry list \<Rightarrow> string \<Rightarrow> Obj list" where
  "kids es parent = map (\<lambda>e. ObjectPtr (entry_Obj e)) (filter (\<lambda>e. entry_Parent e = parent) es)"

definition entry_at :: "Entry list \<Rightarrow> string \<Rightarrow> string \<Rightarrow> Entry option" where
  "entry_at es parent name = find (\<lambda>e. entry_Parent e = parent \<and> Name (entry_Obj e) = name) es"

definition shown :: "Entry \<Rightarrow> Obj" where
  "shown e = ObjWrapName (Name (entry_Obj e)) (ObjectPtr (entry_Obj e))"

fun walk :: "Entry list \<Rightarrow> string list \<Rightarrow> error + Obj" where
  "walk es [] = Inr root_dir"
| "walk es (c # rcs) =
     (case walk es rcs of
        Inl err \<Rightarrow> Inl (WithMessage err ''failed get parent list'')
      | Inr d \<Rightarrow>
          if IsDir d then
            (case entry_at es (GetPath d) c of
               Some e \<Rightarrow> Inr (shown e)
             | None \<Rightarrow> Inl (WithStack ObjectNotFound))
          else Inl (WithMessage (WithStack NotFolder) ''failed get parent list''))"

fun trail :: "Entry list \<Rightarrow> string list \<Rightarrow> Call list" where
  "trail es [] = []"
| "trail es (c # rcs) =
     (case walk es rcs of
        Inl err \<Rightarrow> trail es rcs
      | Inr d \<Rightarrow> if IsDir d then trail es rcs @ [CallList (GetPath d)] else trail es rcs)"

text \<open>
  The namespace prefix is there as a directory, and a name is free in a directory: no
  entry has that place or that path.
\<close>

definition prefix_ready :: "Store \<Rightarrow> bool" where
  "prefix_ready s =
     (case entry_at (entries s) ''/'' ''juicefs'' of
        None \<Rightarrow> False
      | Some e \<Rightarrow> IsFolder (entry_Obj e) \<and> Path (entry_Obj e) = baseDir)"

definition absent :: "Store \<Rightarrow> string \<Rightarrow> string \<Rightarrow> bool" where
  "absent s parent name =
     list_all (\<lambda>e. \<not> (entry_Parent e = parent \<and> Name (entry_Obj e) = name)
                  \<and> Path (entry_Obj e) \<noteq> child_path parent name) (entries s)"

text \<open>Stores to run the adapter on.\<close>

definition empty_store :: Store where
  "empty_store = \<lparr>entries = [], calls = []\<rparr>"

definition store_new :: Store where
  "store_new = \<lparr>entries = [dir_entry ''/'' ''juicefs''], calls = []\<rparr>"

definition store_file :: Store where
  "store_file =
     \<lparr>entries = [dir_entry ''/'' ''juicefs'', file_entry ''/juicefs'' ''a.txt'' 5 0 ''hello''],
      calls = []\<rparr>"

definition store_nested :: Store where
  "store_nested =
     \<lparr>entries = [dir_entry ''/'' ''juicefs'', dir_entry ''/juicefs'' ''juicefs'',
                 dir_entry ''/juicefs/juicefs'' ''juicefs'',
                 file_entry ''/juicefs/juicefs/juicefs'' ''a.txt'' 5 0 ''hello''],
      calls = []\<rparr>"

definition store_blocked :: Store where
  "store_blocked = \<lparr>entries = [file_entry ''/'' ''juicefs'' 0 0 []], calls = []\<rparr>"

section \<open>The public operations\<close>

declare get.simps [simp del] list.simps [simp del] mkdir.simps [simp del]

text \<open>
  In every statement below the backend \<open>b\<close> and its state are arbitrary. A result
  \<open>Some (r, s')\<close> gives the backend's state \<open>s'\<close> when the operation returns, so an
  operation that returns in the state in which path resolution left the backend has
  made no call to the backend after the resolution.
\<close>

text \<open>
  Claim C5. When the resolution of the path yields a failure whose cause is NotFound,
  Delete returns without error. When it yields any other failure, Delete returns that
  failure, under a message that keeps its cause. When it yields a descriptor, Delete
  gives the backend's Remove the descriptor under its display-name wrapper and returns
  what Remove returns; on a backend without Remove it fails with NotImplement.
\<close>

theorem Delete_resolution:
  "(get n b (Join baseDir name) s = Some (Inl err, s1) \<longrightarrow> IsObjectNotFound err \<longrightarrow>
      Delete n b name s = Some (None, s1))
   \<and> (get n b (Join baseDir name) s = Some (Inl err, s1) \<longrightarrow> \<not> IsObjectNotFound err \<longrightarrow>
      Delete n b name s = Some (Some (WithMessage err ''failed to get object''), s1)
      \<and> Cause (WithMessage err ''failed to get object'') = Cause err)
   \<and> (get n b (Join baseDir name) s = Some (Inr rawObj, s1) \<longrightarrow> driver_Remove b = Some remove \<longrightarrow>
      Delete n b name s = Some (remove (UnwrapObj rawObj) s1))
   \<and> (get n b (Join baseDir name) s = Some (Inr rawObj, s1) \<longrightarrow> driver_Remove b = None \<longrightarrow>
      Delete n b name s = Some (Some NotImplement, s1))"
  by (simp add: Delete_def)

theorem Delete_resolution_witness:
  "get 5 (mem False False) (Join baseDir ''b.txt'') store_file =
     Some (Inl (WithStack ObjectNotFound), logged (CallList ''/juicefs'') (logged (CallList ''/'') store_file))
   \<and> IsObjectNotFound (WithStack ObjectNotFound)
   \<and> Delete 5 (mem False False) ''b.txt'' store_file =
       Some (None, logged (CallList ''/juicefs'') (logged (CallList ''/'') store_file))
   \<and> get 5 (mem False False) (Join baseDir ''b.txt'') store_blocked =
       Some (Inl (WithMessage (WithStack NotFolder) ''failed get parent list''),
             logged (CallList ''/'') store_blocked)
   \<and> \<not> IsObjectNotFound (WithMessage (WithStack NotFolder) ''failed get parent list'')
   \<and> Delete 5 (mem False False) ''b.txt'' store_blocked =
       Some (Some (WithMessage (WithMessage (WithStack NotFolder) ''failed get parent list'')
                     ''failed to get object''),
             logged (CallList ''/'') store_blocked)
   \<and> get 5 (mem False False) (Join baseDir ''a.txt'') store_file =
       Some (Inr (ObjWrapName ''a.txt'' (ObjectPtr (entry_Obj (file_entry ''/juicefs'' ''a.txt'' 5 0 ''hello'')))),
             logged (CallList ''/juicefs'') (logged (CallList ''/'') store_file))
   \<and> driver_Remove (mem False False) = Some mem_Remove
   \<and> Delete 5 (mem False False) ''a.txt'' store_file =
       Some (mem_Remove (ObjectPtr (entry_Obj (file_entry ''/juicefs'' ''a.txt'' 5 0 ''hello'')))
               (logged (CallList ''/juicefs'') (logged (CallList ''/'') store_file)))
   \<and> driver_Remove mem_no_Remove = None
   \<and> Delete 5 mem_no_Remove ''a.txt'' store_file =
       Some (Some NotImplement, logged (CallList ''/juicefs'') (logged (CallList ''/'') store_file))"
proof -
  let ?b = "mem False False"
  let ?s1 = "logged (CallList ''/juicefs'') (logged (CallList ''/'') store_file)"
  let ?e2 = "WithMessage (WithStack NotFolder) ''failed get parent list''"
  let ?f = "ObjectPtr (entry_Obj (file_entry ''/juicefs'' ''a.txt'' 5 0 ''hello''))"
  have g1: "get 5 ?b (Join baseDir ''b.txt'') store_file = Some (Inl (WithStack ObjectNotFound), ?s1)"
    by code_simp
  have n1: "IsObjectNotFound (WithStack ObjectNotFound)"
    by (simp add: IsObjectNotFound_def)
  have g2: "get 5 ?b (Join baseDir ''b.txt'') store_blocked = Some (Inl ?e2, logged (CallList ''/'') store_blocked)"
    by code_simp
  have n2: "\<not> IsObjectNotFound ?e2"
    by (simp add: IsObjectNotFound_def)
  have g3: "get 5 ?b (Join baseDir ''a.txt'') store_file = Some (Inr (ObjWrapName ''a.txt'' ?f), ?s1)"
    by code_simp
  have r: "driver_Remove ?b = Some mem_Remove"
    by (simp add: mem_def)
  have d1: "Delete 5 ?b ''b.txt'' store_file = Some (None, ?s1)"
    using Delete_resolution [where n = 5 and b = ?b and name = "''b.txt''" and s = store_file
        and err = "WithStack ObjectNotFound" and ?s1.0 = ?s1] g1 n1 by blast
  have d2: "Delete 5 ?b ''b.txt'' store_blocked =
      Some (Some (WithMessage ?e2 ''failed to get object''), logged (CallList ''/'') store_blocked)"
    using Delete_resolution [where n = 5 and b = ?b and name = "''b.txt''" and s = store_blocked
        and err = ?e2 and ?s1.0 = "logged (CallList ''/'') store_blocked"] g2 n2 by blast
  have d3: "Delete 5 ?b ''a.txt'' store_file = Some (mem_Remove (UnwrapObj (ObjWrapName ''a.txt'' ?f)) ?s1)"
    using Delete_resolution [where n = 5 and b = ?b and name = "''a.txt''" and s = store_file
        and rawObj = "ObjWrapName ''a.txt'' ?f" and ?s1.0 = ?s1 and remove = mem_Remove] g3 r by blast
  have g4: "get 5 mem_no_Remove (Join baseDir ''a.txt'') store_file = Some (Inr (ObjWrapName ''a.txt'' ?f), ?s1)"
    by code_simp
  have r4: "driver_Remove mem_no_Remove = None"
    by (simp add: mem_no_Remove_def mem_def)
  have d4: "Delete 5 mem_no_Remove ''a.txt'' store_file = Some (Some NotImplement, ?s1)"
    using Delete_resolution [where n = 5 and b = mem_no_Remove and name = "''a.txt''" and s = store_file
        and rawObj = "ObjWrapName ''a.txt'' ?f" and ?s1.0 = ?s1] g4 r4 by simp
  show ?thesis
    using g1 n1 d1 g2 n2 d2 g3 r d3 r4 d4 by simp
qed

text \<open>
  Claim C7. When the path resolves to a directory, Read fails with NotFile in the state
  that the resolution left: no transfer link was asked for. When a path resolves to a
  descriptor that is not a directory, listing it fails with NotFolder in the state that
  the resolution left: the backend was not asked to list it.
\<close>

theorem type_mismatch:
  "(get n b (Join baseDir name) s = Some (Inr obj, s1) \<longrightarrow> IsDir obj \<longrightarrow>
      Read n b name off limit s = Some (Inl (WithStack NotFile), s1))
   \<and> (get n b dir s = Some (Inr d, s2) \<longrightarrow> \<not> IsDir d \<longrightarrow>
      list (Suc n) b dir s = Some (Inl (WithStack NotFolder), s2))"
  by (simp add: Read_def list.simps)

theorem type_mismatch_witness:
  "get 5 (mem False False) (Join baseDir []) store_file =
     Some (Inr (ObjWrapName ''juicefs'' (ObjectPtr (entry_Obj (dir_entry ''/'' ''juicefs'')))),
           logged (CallList ''/'') store_file)
   \<and> IsDir (ObjWrapName ''juicefs'' (ObjectPtr (entry_Obj (dir_entry ''/'' ''juicefs''))))
   \<and> Read 5 (mem False False) [] 0 5 store_file =
       Some (Inl (WithStack NotFile), logged (CallList ''/'') store_file)
   \<and> get 5 (mem False False) ''/juicefs/a.txt'' store_file =
       Some (Inr (ObjWrapName ''a.txt'' (ObjectPtr (entry_Obj (file_entry ''/juicefs'' ''a.txt'' 5 0 ''hello'')))),
             logged (CallList ''/juicefs'') (logged (CallList ''/'') store_file))
   \<and> \<not> IsDir (ObjWrapName ''a.txt'' (ObjectPtr (entry_Obj (file_entry ''/juicefs'' ''a.txt'' 5 0 ''hello''))))
   \<and> list 6 (mem False False) ''/juicefs/a.txt'' store_file =
       Some (Inl (WithStack NotFolder), logged (CallList ''/juicefs'') (logged (CallList ''/'') store_file))"
proof -
  let ?b = "mem False False"
  let ?d = "ObjWrapName ''juicefs'' (ObjectPtr (entry_Obj (dir_entry ''/'' ''juicefs'')))"
  let ?f = "ObjWrapName ''a.txt'' (ObjectPtr (entry_Obj (file_entry ''/juicefs'' ''a.txt'' 5 0 ''hello'')))"
  let ?s2 = "logged (CallList ''/juicefs'') (logged (CallList ''/'') store_file)"
  have g1: "get 5 ?b (Join baseDir []) store_file = Some (Inr ?d, logged (CallList ''/'') store_file)"
    by code_simp
  have i1: "IsDir ?d"
    by (simp add: dir_entry_def)
  have g2: "get 5 ?b ''/juicefs/a.txt'' store_file = Some (Inr ?f, ?s2)"
    by code_simp
  have i2: "\<not> IsDir ?f"
    by (simp add: file_entry_def)
  have r1: "Read 5 ?b [] 0 5 store_file = Some (Inl (WithStack NotFile), logged (CallList ''/'') store_file)"
    using type_mismatch [where n = 5 and b = ?b and name = "[]" and s = store_file and obj = ?d
        and ?s1.0 = "logged (CallList ''/'') store_file" and off = 0 and limit = 5] g1 i1 by blast
  have r2: "list (Suc 5) ?b ''/juicefs/a.txt'' store_file = Some (Inl (WithStack NotFolder), ?s2)"
    using type_mismatch [where n = 5 and b = ?b and dir = "''/juicefs/a.txt''" and s = store_file
        and d = ?f and ?s2.0 = ?s2] g2 i2 by blast
  have six: "(6::nat) = Suc 5" by simp
  show ?thesis
    using g1 i1 r1 g2 i2 r2 unfolding six by simp
qed

section \<open>Resolution of the root\<close>

lemma direct_get_none: "driver_Getter b = None \<Longrightarrow> direct_get b path s = (path, None, s)"
  by (simp add: direct_get_def)

lemma get_root_no_getter:
  "driver_Getter b = None \<Longrightarrow> get (Suc n) b ''/'' s = Some (root_folder b s)"
  by (simp add: direct_get_none get.simps)

text \<open>
  Without the direct getter, the resolution of the path \<open>/\<close> takes exactly one root
  strategy. A root getter, when the backend has one, is used and nothing else is tried:
  its failure is the failure of the resolution, and so is a result with neither a
  descriptor nor an error. Without a root getter, a declared root ID gives a directory
  descriptor with that ID, the fixed display name, size zero and the backend's own
  modification time; without either, a declared root path gives the same with the path
  in place of the ID; with none of the three, the resolution fails with the
  configuration error.
\<close>

theorem root_strategy:
  "driver_Getter b = None \<Longrightarrow>
     (driver_GetRooter b = Some getRoot \<longrightarrow>
        (getRoot s = (Inl err, s') \<longrightarrow>
           get (Suc n) b ''/'' s = Some (Inl (WithMessage err ''failed get root obj''), s'))
      \<and> (getRoot s = (Inr (Some obj), s') \<longrightarrow>
           get (Suc n) b ''/'' s = Some (Inr (ObjWrapName RootName obj), s'))
      \<and> (getRoot s = (Inr None, s') \<longrightarrow>
           get (Suc n) b ''/'' s = Some (Inl root_missing, s')))
   \<and> (driver_GetRooter b = None \<longrightarrow> driver_IRootId b = Some rootId \<longrightarrow>
        (\<exists>d. get (Suc n) b ''/'' s = Some (Inr d, s) \<and> GetID d = rootId s \<and> GetName d = RootName
           \<and> GetSize d = 0 \<and> ModTime d = driver_Modified b s \<and> IsDir d))
   \<and> (driver_GetRooter b = None \<longrightarrow> driver_IRootId b = None \<longrightarrow> driver_IRootPath b = Some rootPath \<longrightarrow>
        (\<exists>d. get (Suc n) b ''/'' s = Some (Inr d, s) \<and> GetPath d = rootPath s \<and> GetName d = RootName
           \<and> GetSize d = 0 \<and> ModTime d = driver_Modified b s \<and> IsDir d))
   \<and> (driver_GetRooter b = None \<longrightarrow> driver_IRootId b = None \<longrightarrow> driver_IRootPath b = None \<longrightarrow>
        get (Suc n) b ''/'' s = Some (Inl root_missing, s))"
  by (simp add: get_root_no_getter root_folder_def)

theorem root_strategy_witness:
  "driver_Getter (mem_rooter (Inl (DriverError ''offline''))) = None
   \<and> get 1 (mem_rooter (Inl (DriverError ''offline''))) ''/'' store_new =
       Some (Inl (WithMessage (DriverError ''offline'') ''failed get root obj''), store_new)
   \<and> get 1 (mem_rooter (Inr (Some top))) ''/'' store_new = Some (Inr (ObjWrapName RootName top), store_new)
   \<and> get 1 (mem_rooter (Inr None)) ''/'' store_new = Some (Inl root_missing, store_new)
   \<and> (\<exists>d. get 1 mem_root_id ''/'' store_new = Some (Inr d, store_new) \<and> GetID d = ''42''
          \<and> GetName d = RootName \<and> GetSize d = 0 \<and> ModTime d = 0 \<and> IsDir d)
   \<and> (\<exists>d. get 1 (mem False False) ''/'' store_new = Some (Inr d, store_new) \<and> GetPath d = ''/''
          \<and> GetName d = RootName \<and> GetSize d = 0 \<and> ModTime d = 0 \<and> IsDir d)
   \<and> get 1 mem_no_root ''/'' store_new = Some (Inl root_missing, store_new)"
proof -
  let ?g = "\<lambda>r. (\<lambda>s::Store. (r :: error + Obj option, s))"
  have c: "driver_Getter (mem_rooter r) = None" "driver_GetRooter (mem_rooter r) = Some (?g r)" for r
    by (simp_all add: mem_rooter_def mem_def)
  have a1: "get (Suc 0) (mem_rooter (Inl (DriverError ''offline''))) ''/'' store_new =
       Some (Inl (WithMessage (DriverError ''offline'') ''failed get root obj''), store_new)"
    using root_strategy [where b = "mem_rooter (Inl (DriverError ''offline''))" and s = store_new
        and getRoot = "?g (Inl (DriverError ''offline''))" and err = "DriverError ''offline''"
        and s' = store_new and n = 0] c by simp
  have a2: "get (Suc 0) (mem_rooter (Inr (Some top))) ''/'' store_new = Some (Inr (ObjWrapName RootName top), store_new)"
    using root_strategy [where b = "mem_rooter (Inr (Some top))" and s = store_new
        and getRoot = "?g (Inr (Some top))" and obj = top and s' = store_new and n = 0] c by simp
  have a3: "get (Suc 0) (mem_rooter (Inr None)) ''/'' store_new = Some (Inl root_missing, store_new)"
    using root_strategy [where b = "mem_rooter (Inr None)" and s = store_new
        and getRoot = "?g (Inr None)" and s' = store_new and n = 0] c by simp
  have i: "driver_Getter mem_root_id = None" "driver_GetRooter mem_root_id = None"
    "driver_IRootId mem_root_id = Some (\<lambda>s. ''42'')" "driver_Modified mem_root_id = (\<lambda>s. 0)"
    by (simp_all add: mem_root_id_def mem_def)
  have a4: "\<exists>d. get (Suc 0) mem_root_id ''/'' store_new = Some (Inr d, store_new) \<and> GetID d = ''42''
          \<and> GetName d = RootName \<and> GetSize d = 0 \<and> ModTime d = 0 \<and> IsDir d"
    using root_strategy [where b = mem_root_id and s = store_new and rootId = "\<lambda>s. ''42''" and n = 0] i
    by simp
  have p: "driver_Getter (mem False False) = None" "driver_GetRooter (mem False False) = None"
    "driver_IRootId (mem False False) = None" "driver_IRootPath (mem False False) = Some (\<lambda>s. ''/'')"
    "driver_Modified (mem False False) = (\<lambda>s. 0)"
    by (simp_all add: mem_def)
  have a5: "\<exists>d. get (Suc 0) (mem False False) ''/'' store_new = Some (Inr d, store_new) \<and> GetPath d = ''/''
          \<and> GetName d = RootName \<and> GetSize d = 0 \<and> ModTime d = 0 \<and> IsDir d"
    using root_strategy [where b = "mem False False" and s = store_new and rootPath = "\<lambda>s. ''/''" and n = 0] p
    by simp
  have z: "driver_Getter mem_no_root = None" "driver_GetRooter mem_no_root = None"
    "driver_IRootId mem_no_root = None" "driver_IRootPath mem_no_root = None"
    by (simp_all add: mem_no_root_def mem_def)
  have a6: "get (Suc 0) mem_no_root ''/'' store_new = Some (Inl root_missing, store_new)"
    using root_strategy [where b = mem_no_root and s = store_new and n = 0] z by simp
  show ?thesis
    using c(1) a1 a2 a3 a4 a5 a6 by (simp only: One_nat_def simp_thms)
qed

section \<open>Cleaned absolute paths\<close>

text \<open>
  An absolute clean path is a slash followed by proper elements with single slashes
  between them. Clean gives such a path from every path that starts with a slash, so
  every path that Read, Delete and Put pass to \<open>get\<close> is one, and so is every parent
  that \<open>get\<close>, \<open>list\<close> and \<open>mkdir\<close> go on to.
\<close>

lemma split_slash_not_Nil [simp]: "split_slash p \<noteq> []"
  by (induction p) (auto split: list.splits)

lemma split_slash_noslash: "CHR ''/'' \<notin> set c \<Longrightarrow> split_slash c = [c]"
  by (induction c) auto

lemma split_slash_append:
  "CHR ''/'' \<notin> set c \<Longrightarrow> split_slash (c @ CHR ''/'' # r) = c # split_slash r"
  by (induction c) auto

lemma split_slash_elems: "e \<in> set (split_slash p) \<Longrightarrow> CHR ''/'' \<notin> set e"
proof (induction p arbitrary: e)
  case Nil
  then show ?case by simp
next
  case (Cons c p)
  then show ?case
    by (cases "split_slash p") (auto split: if_splits)
qed

lemma split_join:
  "es \<noteq> [] \<Longrightarrow> \<forall>e\<in>set es. CHR ''/'' \<notin> set e \<Longrightarrow> split_slash (join_slash es) = es"
proof (induction es rule: join_slash.induct)
  case 1
  then show ?case by simp
next
  case (2 e)
  then show ?case by (simp add: split_slash_noslash)
next
  case (3 e f es)
  then show ?case by (simp add: split_slash_append)
qed

lemma join_slash_snoc: "cs \<noteq> [] \<Longrightarrow> join_slash (cs @ [c]) = join_slash cs @ CHR ''/'' # c"
  by (induction cs rule: join_slash.induct) auto

lemma fold_elems: "\<forall>e\<in>set es. elem e \<Longrightarrow> foldl (clean_elem r) acc es = rev es @ acc"
  by (induction es arbitrary: acc) (auto simp: clean_elem_def elem_def)

lemma fold_snoc_empty [simp]: "foldl (clean_elem r) acc (es @ [[]]) = foldl (clean_elem r) acc es"
  by (simp add: clean_elem_def)

lemma clean_elem_empty [simp]: "clean_elem r acc [] = acc"
  by (simp add: clean_elem_def)

lemma elems_noslash: "\<forall>c\<in>set cs. elem c \<Longrightarrow> \<forall>c\<in>set cs. CHR ''/'' \<notin> set c"
  by (simp add: elem_def)

lemma Clean_abs: 
  assumes "\<forall>c\<in>set cs. elem c" 
  shows "Clean (abs_path cs) = abs_path cs"
proof (cases "cs = []")
  case True
  then show ?thesis by (simp add: Clean_def abs_path_def)
next
  case False
  with assms have "split_slash (join_slash cs) = cs"
    by (simp add: split_join elem_def)
  with assms show ?thesis
    by (simp add: Clean_def abs_path_def fold_elems)
qed

lemma Clean_abs_slash:
  assumes "\<forall>c\<in>set cs. elem c" 
  shows "Clean (abs_path cs @ ''/'') = abs_path cs"
proof (cases "cs = []")
  case True
  then show ?thesis by (simp add: Clean_def abs_path_def)
next
  case False
  have "join_slash cs @ ''/'' = join_slash (cs @ [[]])"
    using False by (simp add: join_slash_snoc)
  moreover have "split_slash (join_slash (cs @ [[]])) = cs @ [[]]"
    using assms by (intro split_join) (auto simp: elem_def)
  ultimately show ?thesis
    using assms by (simp add: Clean_def abs_path_def fold_elems)
qed

lemma fold_all_elem:
  "\<forall>e\<in>set acc. elem e \<Longrightarrow> \<forall>e\<in>set es. CHR ''/'' \<notin> set e \<Longrightarrow>
     \<forall>e\<in>set (foldl (clean_elem True) acc es). elem e"
proof (induction es arbitrary: acc)
  case Nil
  then show ?case by simp
next
  case (Cons e es)
  have "\<forall>x\<in>set (clean_elem True acc e). elem x"
    using Cons.prems by (cases acc) (auto simp: clean_elem_def elem_def)
  with Cons show ?case by simp
qed

lemma Clean_rooted:
  assumes "p \<noteq> []" "hd p = CHR ''/''"
  shows "\<exists>cs. (\<forall>c\<in>set cs. elem c) \<and> Clean p = abs_path cs"
proof -
  let ?cs = "rev (foldl (clean_elem True) [] (split_slash p))"
  have "\<forall>c\<in>set ?cs. elem c"
    using fold_all_elem [of "[]" "split_slash p"] split_slash_elems by auto
  moreover have "Clean p = abs_path ?cs"
    using assms by (simp add: Clean_def abs_path_def)
  ultimately show ?thesis by blast
qed

lemma absolute_iff: "absolute p \<longleftrightarrow> (\<exists>cs. (\<forall>c\<in>set cs. elem c) \<and> p = abs_path cs)"
proof
  assume "absolute p"
  then show "\<exists>cs. (\<forall>c\<in>set cs. elem c) \<and> p = abs_path cs"
    using Clean_rooted [of p] by (auto simp: absolute_def)
next
  assume "\<exists>cs. (\<forall>c\<in>set cs. elem c) \<and> p = abs_path cs"
  then show "absolute p"
    by (auto simp: absolute_def Clean_abs) (simp add: abs_path_def)+
qed

lemma abs_path_snoc:
  "abs_path (cs @ [c]) = (if cs = [] then CHR ''/'' # c else abs_path cs @ CHR ''/'' # c)"
  by (simp add: abs_path_def join_slash_snoc)

lemma dir_part: "CHR ''/'' \<notin> set c \<Longrightarrow>
  rev (dropWhile (\<lambda>x. x \<noteq> CHR ''/'') (rev (q @ CHR ''/'' # c))) = q @ ''/''"
  by (auto simp: dropWhile_append3)

lemma Dir_abs:
  assumes "\<forall>x\<in>set cs. elem x" "elem c"
  shows "Dir (abs_path (cs @ [c])) = abs_path cs"
proof (cases "cs = []")
  case True
  have "Dir (CHR ''/'' # c) = Clean ''/''"
    using assms(2) dir_part [of c "[]"] by (simp add: Dir_def elem_def)
  then show ?thesis using True by (simp add: abs_path_snoc Clean_def abs_path_def)
next
  case False
  have "Dir (abs_path cs @ CHR ''/'' # c) = Clean (abs_path cs @ ''/'')"
    using assms(2) dir_part [of c "abs_path cs"] by (simp add: Dir_def elem_def)
  then show ?thesis using False assms(1) by (simp add: abs_path_snoc Clean_abs_slash)
qed

lemma Dir_root: "Dir ''/'' = ''/''"
  by code_simp

lemma Base_abs:
  assumes "elem c"
  shows "Base (abs_path (cs @ [c])) = c"
proof -
  define q where "q = (if cs = [] then [] else abs_path cs)"
  have q: "abs_path (cs @ [c]) = q @ CHR ''/'' # c"
    by (simp add: abs_path_snoc q_def)
  have c: "c \<noteq> []" "\<forall>x\<in>set (rev c). x \<noteq> CHR ''/''"
    using assms by (auto simp: elem_def)
  then obtain y ys where r: "rev c = y # ys" "y \<noteq> CHR ''/''"
    by (cases "rev c") auto
  have "dropWhile (\<lambda>x. x = CHR ''/'') (rev (q @ CHR ''/'' # c)) = rev c @ CHR ''/'' # rev q"
    using r by simp
  moreover have "takeWhile (\<lambda>x. x \<noteq> CHR ''/'') (rev c @ CHR ''/'' # rev q) = rev c"
    using c(2) by (subst takeWhile_append2) auto
  ultimately show ?thesis
    unfolding q Base_def using c(1) by (simp add: Let_def)
qed

lemma baseDir_abs: "baseDir = abs_path [''juicefs'']"
  by (simp add: baseDir_def abs_path_def)

lemma Join_baseDir_abs:
  assumes "\<forall>x\<in>set cs. elem x"
  shows "Join baseDir (abs_path cs) = abs_path (''juicefs'' # cs)"
proof -
  have e: "baseDir @ CHR ''/'' # abs_path cs = CHR ''/'' # join_slash (''juicefs'' # [] # (if cs = [] then [[]] else cs))"
    by (cases cs) (simp_all add: baseDir_def abs_path_def)
  have "split_slash (join_slash (''juicefs'' # [] # (if cs = [] then [[]] else cs))) =
      ''juicefs'' # [] # (if cs = [] then [[]] else cs)"
    using assms by (intro split_join) (auto simp: elem_def)
  then have "Clean (baseDir @ CHR ''/'' # abs_path cs) =
      CHR ''/'' # join_slash (rev (foldl (clean_elem True) [''juicefs''] cs))"
    unfolding e by (simp add: Clean_def clean_elem_def)
  then show ?thesis
    using assms by (simp add: Join_def baseDir_def fold_elems abs_path_def)
qed

lemma absolute_Join: "absolute (Join baseDir name)"
proof -
  obtain cs where "\<forall>c\<in>set cs. elem c" "Clean (baseDir @ CHR ''/'' # name) = abs_path cs"
    using Clean_rooted [of "baseDir @ CHR ''/'' # name"] by (auto simp: baseDir_def)
  then show ?thesis
    by (auto simp: absolute_iff Join_def baseDir_def)
qed

lemma absolute_baseDir: "absolute baseDir"
  by (simp add: absolute_def baseDir_def) code_simp

lemma parent_of_abs:
  assumes "\<forall>x\<in>set cs. elem x" "elem c"
  shows "parent_of (abs_path (cs @ [c])) = abs_path cs"
proof -
  have "Dir (abs_path (cs @ [c])) = abs_path cs"
    using assms by (rule Dir_abs)
  moreover have "abs_path cs \<noteq> ''.''"
    by (simp add: abs_path_def)
  ultimately show ?thesis
    by (simp add: parent_of_def Let_def)
qed

lemma parent_of_root: "parent_of ''/'' = ''/''"
  by code_simp

lemma absolute_parent_of: "absolute p \<Longrightarrow> absolute (parent_of p)"
proof -
  assume "absolute p"
  then obtain cs where cs: "\<forall>c\<in>set cs. elem c" "p = abs_path cs"
    by (auto simp: absolute_iff)
  show ?thesis
  proof (cases cs rule: rev_cases)
    case Nil
    then show ?thesis
      using cs by (simp add: abs_path_def parent_of_root) (simp add: absolute_def, code_simp)
  next
    case (snoc ds d)
    then show ?thesis
      using cs parent_of_abs [of ds d] by (auto simp: absolute_iff)
  qed
qed

lemma abs_path_not_root: "\<forall>c\<in>set cs. elem c \<Longrightarrow> cs \<noteq> [] \<Longrightarrow> abs_path cs \<noteq> ''/''"
  by (cases cs rule: join_slash.cases) (auto simp: abs_path_def elem_def)

lemma absolute_Join_not_root: "absolute p \<Longrightarrow> Join baseDir p \<noteq> ''/''"
proof -
  assume "absolute p"
  then obtain cs where cs: "\<forall>c\<in>set cs. elem c" "p = abs_path cs"
    by (auto simp: absolute_iff)
  have "\<forall>c\<in>set (''juicefs'' # cs). elem c"
    using cs by (simp add: elem_def)
  then show ?thesis
    using cs abs_path_not_root [of "''juicefs'' # cs"] by (simp add: Join_baseDir_abs)
qed

lemma length_abs_path: "length (abs_path cs) = sum_list (map (\<lambda>c. Suc (length c)) cs) + (if cs = [] then 1 else 0)"
  by (induction cs rule: join_slash.induct) (auto simp: abs_path_def)

lemma absolute_parent_differs:
  assumes "absolute p" "p \<noteq> ''/''"
  shows "parent_of (Join baseDir p) \<noteq> parent_of p"
proof -
  obtain cs where cs: "\<forall>c\<in>set cs. elem c" "p = abs_path cs"
    using assms by (auto simp: absolute_iff)
  with assms(2) obtain ds d where d: "cs = ds @ [d]"
    by (cases cs rule: rev_cases) (auto simp: abs_path_def)
  have e: "\<forall>c\<in>set (''juicefs'' # ds). elem c" "elem d" "\<forall>c\<in>set ds. elem c"
    using cs d by (simp_all add: elem_def)
  have "parent_of (Join baseDir p) = abs_path (''juicefs'' # ds)"
    using cs d e parent_of_abs [of "''juicefs'' # ds" d] by (simp add: Join_baseDir_abs)
  moreover have "parent_of p = abs_path ds"
    using cs d e parent_of_abs [of ds d] by simp
  moreover have "length (abs_path (''juicefs'' # ds)) \<noteq> length (abs_path ds)"
    by (simp add: length_abs_path)
  ultimately show ?thesis by metis
qed


lemma Join_baseDir_append:
  assumes "absolute p" "p \<noteq> ''/''"
  shows "Join baseDir p = baseDir @ p"
proof -
  obtain cs where cs: "\<forall>c\<in>set cs. elem c" "p = abs_path cs"
    using assms by (auto simp: absolute_iff)
  with assms(2) have "cs \<noteq> []"
    by (auto simp: abs_path_def)
  then have "abs_path (''juicefs'' # cs) = baseDir @ abs_path cs"
    by (cases cs) (simp_all add: abs_path_def baseDir_def)
  with cs show ?thesis
    by (simp add: Join_baseDir_abs)
qed

section \<open>Backends with the direct getter\<close>

text \<open>
  Claim C9. On a backend with the direct getter, \<open>get\<close> of a path other than the
  namespace prefix asks the getter for the join of the prefix and the path. When the
  getter succeeds, its descriptor under its display name is the result. When it fails,
  the joined path takes the place of the path: unless the join is the root, \<open>get\<close> lists
  the parent of the joined path and scans for the base name of the joined path. The
  public operations pass absolute clean paths; for such a path the join is never the
  root, and when the path is not the root the join is the prefix written in front of
  the path, and its parent is not the parent of the path.
\<close>

theorem double_prefix:
  assumes "driver_Getter b = Some g" and "p \<noteq> baseDir"
  shows "(g (Join baseDir p) s = (Inr obj, s1) \<longrightarrow>
            get (Suc n) b p s = Some (Inr (WrapObjName (driver_MappingName b) obj), s1))
       \<and> (g (Join baseDir p) s = (Inl err, s1) \<longrightarrow> Join baseDir p \<noteq> ''/'' \<longrightarrow>
            get (Suc n) b p s =
              (case list n b (parent_of (Join baseDir p)) s1 of
                 None \<Rightarrow> None
               | Some (Inl e, s2) \<Rightarrow> Some (Inl (WithMessage e ''failed get parent list''), s2)
               | Some (Inr files, s2) \<Rightarrow> Some (scan (Base (Join baseDir p)) files, s2)))
       \<and> (absolute p \<longrightarrow> Join baseDir p \<noteq> ''/'')
       \<and> (absolute p \<longrightarrow> p \<noteq> ''/'' \<longrightarrow>
            Join baseDir p = baseDir @ p \<and> parent_of (Join baseDir p) \<noteq> parent_of p)
       \<and> absolute (Join baseDir name)"
proof -
  have A: "g (Join baseDir p) s = (Inr obj, s1) \<longrightarrow>
            get (Suc n) b p s = Some (Inr (WrapObjName (driver_MappingName b) obj), s1)"
    using assms by (simp add: get.simps direct_get_def)
  have B: "g (Join baseDir p) s = (Inl err, s1) \<longrightarrow> Join baseDir p \<noteq> ''/'' \<longrightarrow>
            get (Suc n) b p s =
              (case list n b (parent_of (Join baseDir p)) s1 of
                 None \<Rightarrow> None
               | Some (Inl e, s2) \<Rightarrow> Some (Inl (WithMessage e ''failed get parent list''), s2)
               | Some (Inr files, s2) \<Rightarrow> Some (scan (Base (Join baseDir p)) files, s2))"
    using assms by (simp add: get.simps direct_get_def)
  from A B show ?thesis
    using absolute_Join_not_root absolute_parent_differs Join_baseDir_append absolute_Join
    by blast
qed

theorem double_prefix_witness:
  "driver_Getter (mem False True) = Some mem_Get
   \<and> ''/juicefs/juicefs'' \<noteq> baseDir \<and> ''/juicefs/a.txt'' \<noteq> baseDir
   \<and> mem_Get (Join baseDir ''/juicefs/juicefs'') store_nested =
       (Inr (ObjectPtr (entry_Obj (dir_entry ''/juicefs/juicefs'' ''juicefs''))),
        logged (CallGet ''/juicefs/juicefs/juicefs'') store_nested)
   \<and> get 1 (mem False True) ''/juicefs/juicefs'' store_nested =
       Some (Inr (ObjWrapName ''juicefs'' (ObjectPtr (entry_Obj (dir_entry ''/juicefs/juicefs'' ''juicefs'')))),
             logged (CallGet ''/juicefs/juicefs/juicefs'') store_nested)
   \<and> mem_Get (Join baseDir ''/juicefs/a.txt'') store_nested =
       (Inl ObjectNotFound, logged (CallGet ''/juicefs/juicefs/a.txt'') store_nested)
   \<and> get 3 (mem False True) ''/juicefs/a.txt'' store_nested =
       Some (Inr (ObjWrapName ''a.txt'' (ObjectPtr (entry_Obj
                    (file_entry ''/juicefs/juicefs/juicefs'' ''a.txt'' 5 0 ''hello'')))),
             logged (CallList ''/juicefs/juicefs/juicefs'')
               (logged (CallGet ''/juicefs/juicefs/juicefs'')
                 (logged (CallGet ''/juicefs/juicefs/a.txt'') store_nested)))
   \<and> absolute ''/juicefs/a.txt''
   \<and> Join baseDir ''/juicefs/a.txt'' = ''/juicefs/juicefs/a.txt''
   \<and> parent_of (Join baseDir ''/juicefs/a.txt'') \<noteq> parent_of ''/juicefs/a.txt''
   \<and> absolute (Join baseDir ''a.txt'')"
proof -
  let ?b = "mem False True"
  let ?d = "ObjectPtr (entry_Obj (dir_entry ''/juicefs/juicefs'' ''juicefs''))"
  let ?s1 = "logged (CallGet ''/juicefs/juicefs/a.txt'') store_nested"
  let ?r = "Some (Inr (ObjWrapName ''a.txt'' (ObjectPtr (entry_Obj
                    (file_entry ''/juicefs/juicefs/juicefs'' ''a.txt'' 5 0 ''hello'')))),
             logged (CallList ''/juicefs/juicefs/juicefs'')
               (logged (CallGet ''/juicefs/juicefs/juicefs'') ?s1))"
  have cap: "driver_Getter ?b = Some mem_Get"
    by (simp add: mem_def)
  have ne: "''/juicefs/juicefs'' \<noteq> baseDir" "''/juicefs/a.txt'' \<noteq> baseDir"
    by (simp_all add: baseDir_def)
  have g1: "mem_Get (Join baseDir ''/juicefs/juicefs'') store_nested =
      (Inr ?d, logged (CallGet ''/juicefs/juicefs/juicefs'') store_nested)"
    by code_simp
  have w: "WrapObjName (driver_MappingName ?b) ?d = ObjWrapName ''juicefs'' ?d"
    by code_simp
  have A: "get (Suc 0) ?b ''/juicefs/juicefs'' store_nested =
      Some (Inr (ObjWrapName ''juicefs'' ?d), logged (CallGet ''/juicefs/juicefs/juicefs'') store_nested)"
    using double_prefix [OF cap ne(1), where s = store_nested and obj = ?d
        and ?s1.0 = "logged (CallGet ''/juicefs/juicefs/juicefs'') store_nested" and n = 0] g1
    unfolding w by simp
  have g2: "mem_Get (Join baseDir ''/juicefs/a.txt'') store_nested = (Inl ObjectNotFound, ?s1)"
    by code_simp
  have nr: "Join baseDir ''/juicefs/a.txt'' \<noteq> ''/''"
    by code_simp
  have l: "(case list 2 ?b (parent_of (Join baseDir ''/juicefs/a.txt'')) ?s1 of
                 None \<Rightarrow> None
               | Some (Inl e, s2) \<Rightarrow> Some (Inl (WithMessage e ''failed get parent list''), s2)
               | Some (Inr files, s2) \<Rightarrow> Some (scan (Base (Join baseDir ''/juicefs/a.txt'')) files, s2)) = ?r"
    by code_simp
  have B: "get (Suc 2) ?b ''/juicefs/a.txt'' store_nested = ?r"
    using double_prefix [OF cap ne(2), where s = store_nested and err = ObjectNotFound
        and ?s1.0 = ?s1 and n = 2] g2 nr l
    by simp
  have a: "absolute ''/juicefs/a.txt''"
    by code_simp
  have nroot: "''/juicefs/a.txt'' \<noteq> ''/''"
    by simp
  have C: "Join baseDir ''/juicefs/a.txt'' = baseDir @ ''/juicefs/a.txt''"
    "parent_of (Join baseDir ''/juicefs/a.txt'') \<noteq> parent_of ''/juicefs/a.txt''"
    using double_prefix [OF cap ne(2)] a nroot by blast+
  have D: "absolute (Join baseDir ''a.txt'')"
    using double_prefix [OF cap ne(2)] by blast
  have three: "(3::nat) = Suc 2" by simp
  show ?thesis
    unfolding three One_nat_def
    using cap ne g1 A g2 B a C D by (simp add: baseDir_def)
qed

text \<open>
  With the getter, a resolution that falls back never gets nearer to the root: from
  the doubled prefix on, each level asks for the same parent again.
\<close>

lemma getter_loop:
  "\<forall>e\<in>set (entries s). Path (entry_Obj e) \<noteq> ''/juicefs/juicefs/juicefs'' \<Longrightarrow>
     get n (mem strict True) ''/juicefs/juicefs'' s = None"
proof (induction n arbitrary: s rule: less_induct)
  case (less n)
  have j: "Join baseDir ''/juicefs/juicefs'' = ''/juicefs/juicefs/juicefs''"
    by code_simp
  have p: "parent_of ''/juicefs/juicefs/juicefs'' = ''/juicefs/juicefs''"
    by code_simp
  have f: "find (\<lambda>e. Path (entry_Obj e) = ''/juicefs/juicefs/juicefs'') (entries s) = None"
    using less.prems by (simp add: find_None_iff)
  have d: "direct_get (mem strict True) ''/juicefs/juicefs'' s =
      (''/juicefs/juicefs/juicefs'', None, logged (CallGet ''/juicefs/juicefs/juicefs'') s)"
    using f by (simp add: direct_get_def mem_def baseDir_def j [unfolded baseDir_def] mem_Get_def Let_def)
  show ?case
  proof (cases n)
    case 0
    then show ?thesis by (simp add: get.simps)
  next
    case (Suc m)
    show ?thesis
    proof (cases m)
      case 0
      with Suc d show ?thesis by (simp add: get.simps list.simps p)
    next
      case (Suc k)
      have "get k (mem strict True) ''/juicefs/juicefs'' (logged (CallGet ''/juicefs/juicefs/juicefs'') s) = None"
        using less.IH [of k "logged (CallGet ''/juicefs/juicefs/juicefs'') s"] less.prems Suc \<open>n = Suc m\<close>
        by (simp add: logged_def)
      with Suc \<open>n = Suc m\<close> d show ?thesis
        by (simp add: get.simps list.simps p)
    qed
  qed
qed

text \<open>
  Claim C1, at a failing input. The store holds the file a.txt under the namespace
  prefix and the backend has the direct getter. \<open>get\<close> asks the getter for the path
  under a second prefix, where there is nothing, and goes on with that path: it lists
  the parent of the doubly prefixed path, not the parent of the path, and the call does
  not return at any depth. On the same store without the getter the parent is listed
  and the file is found.
\<close>

theorem direct_get_fallback_loops:
  "direct_get (mem False True) ''/juicefs/a.txt'' store_file =
     (''/juicefs/juicefs/a.txt'', None, logged (CallGet ''/juicefs/juicefs/a.txt'') store_file)
   \<and> parent_of ''/juicefs/juicefs/a.txt'' = ''/juicefs/juicefs''
   \<and> get n (mem False True) ''/juicefs/a.txt'' store_file = None
   \<and> get 5 (mem False False) ''/juicefs/a.txt'' store_file =
       Some (Inr (ObjWrapName ''a.txt'' (ObjectPtr (entry_Obj (file_entry ''/juicefs'' ''a.txt'' 5 0 ''hello'')))),
             logged (CallList ''/juicefs'') (logged (CallList ''/'') store_file))"
proof -
  let ?s = "logged (CallGet ''/juicefs/juicefs/a.txt'') store_file"
  have d: "direct_get (mem False True) ''/juicefs/a.txt'' store_file = (''/juicefs/juicefs/a.txt'', None, ?s)"
    by code_simp
  have p: "parent_of ''/juicefs/juicefs/a.txt'' = ''/juicefs/juicefs''"
    by code_simp
  have e: "\<forall>e\<in>set (entries ?s). Path (entry_Obj e) \<noteq> ''/juicefs/juicefs/juicefs''"
    by (simp add: logged_def store_file_def dir_entry_def file_entry_def child_path_def)
  have l: "list m (mem False True) ''/juicefs/juicefs'' ?s = None" for m
    using getter_loop [OF e] by (cases m) (simp_all add: list.simps)
  have g: "get n (mem False True) ''/juicefs/a.txt'' store_file = None"
    using d p l by (cases n) (simp_all add: get.simps)
  have s: "get 5 (mem False False) ''/juicefs/a.txt'' store_file =
       Some (Inr (ObjWrapName ''a.txt'' (ObjectPtr (entry_Obj (file_entry ''/juicefs'' ''a.txt'' 5 0 ''hello'')))),
             logged (CallList ''/juicefs'') (logged (CallList ''/'') store_file))"
    by code_simp
  show ?thesis by (intro conjI d p g s)
qed

theorem direct_get_fallback_loops_witness:
  "get 100 (mem False True) ''/juicefs/a.txt'' store_file = None"
  using direct_get_fallback_loops [of 100] by simp

text \<open>
  Claim C4, at a failing input. The namespace prefix exists, the root path resolves,
  and one ancestor of the directory is missing. With the direct getter, the resolution of
  that ancestor does not return, and so mkdir does not return at any depth. On the same
  store without the getter mkdir returns without error.
\<close>

theorem mkdir_loops:
  "get 1 (mem False True) ''/'' store_new = Some (Inr juicefs_dir, logged (CallGet ''/juicefs'') store_new)
   \<and> mkdir n (mem False True) ''/juicefs/a/b'' store_new = None
   \<and> map_option fst (mkdir 9 (mem False False) ''/juicefs/a/b'' store_new) = Some None"
proof -
  let ?s = "logged (CallGet ''/juicefs/juicefs/a'') store_new"
  have r: "get 1 (mem False True) ''/'' store_new = Some (Inr juicefs_dir, logged (CallGet ''/juicefs'') store_new)"
    by code_simp
  have d: "direct_get (mem False True) ''/juicefs/a'' store_new = (''/juicefs/juicefs/a'', None, ?s)"
    by code_simp
  have p: "parent_of ''/juicefs/juicefs/a'' = ''/juicefs/juicefs''" "parent_of ''/juicefs/a/b'' = ''/juicefs/a''"
    by code_simp+
  have e: "\<forall>e\<in>set (entries ?s). Path (entry_Obj e) \<noteq> ''/juicefs/juicefs/juicefs''"
    by (simp add: logged_def store_new_def dir_entry_def child_path_def)
  have l: "list m (mem False True) ''/juicefs/juicefs'' ?s = None" for m
    using getter_loop [OF e] by (cases m) (simp_all add: list.simps)
  have g: "get m (mem False True) ''/juicefs/a'' store_new = None" for m
    using d p l by (cases m) (simp_all add: get.simps)
  have m: "mkdir n (mem False True) ''/juicefs/a/b'' store_new = None"
    using g p by (cases n) (simp_all add: mkdir.simps)
  have s: "map_option fst (mkdir 9 (mem False False) ''/juicefs/a/b'' store_new) = Some None"
    by code_simp
  show ?thesis by (intro conjI r m s)
qed

theorem mkdir_loops_witness:
  "mkdir 100 (mem False True) ''/juicefs/a/b'' store_new = None"
  using mkdir_loops [of 100] by simp

section \<open>More fuel changes no result\<close>

lemma get_list_mono:
  "(get n b p s = Some r \<longrightarrow> get (Suc n) b p s = Some r)
   \<and> (list n b p s = Some r' \<longrightarrow> list (Suc n) b p s = Some r')"
proof (induction n arbitrary: p s r r')
  case 0
  then show ?case by (simp add: get.simps list.simps)
next
  case (Suc n)
  have g: "get (Suc n) b p s = Some r \<longrightarrow> get (Suc (Suc n)) b p s = Some r"
  proof
    assume a: "get (Suc n) b p s = Some r"
    obtain path ob s1 where d: "direct_get b p s = (path, ob, s1)"
      by (cases "direct_get b p s") auto
    show "get (Suc (Suc n)) b p s = Some r"
    proof (cases "ob = None \<and> path \<noteq> ''/''")
      case False
      then show ?thesis
        using a d by (auto simp: get.simps split: option.splits)
    next
      case True
      with a d obtain lr where l: "list n b (parent_of path) s1 = Some lr"
        by (auto simp: get.simps split: option.splits)
      with Suc.IH have "list (Suc n) b (parent_of path) s1 = Some lr"
        by blast
      with a d True l show ?thesis
        by (simp add: get.simps)
    qed
  qed
  have l: "list (Suc n) b p s = Some r' \<longrightarrow> list (Suc (Suc n)) b p s = Some r'"
  proof
    assume a: "list (Suc n) b p s = Some r'"
    then obtain gr where h: "get n b p s = Some gr"
      by (auto simp: list.simps split: option.splits)
    with Suc.IH have "get (Suc n) b p s = Some gr"
      by blast
    with a h show "list (Suc (Suc n)) b p s = Some r'"
      by (simp add: list.simps)
  qed
  from g l show ?case by blast
qed

lemma get_mono_Suc: "get n b p s = Some r \<Longrightarrow> get (Suc n) b p s = Some r"
  by (rule get_list_mono [THEN conjunct1, rule_format])

lemma get_mono: "get m b p s = Some r \<Longrightarrow> m \<le> n \<Longrightarrow> get n b p s = Some r"
  by (induction n) (auto simp: le_Suc_eq get_mono_Suc)

lemma mkdir_mono_Suc: "mkdir n b p s = Some r \<Longrightarrow> mkdir (Suc n) b p s = Some r"
proof (induction n arbitrary: p s r)
  case 0
  then show ?case by (simp add: mkdir.simps)
next
  case (Suc n)
  note e1 = mkdir.simps(2) [of n b p s]
  note e2 = mkdir.simps(2) [of "Suc n" b p s]
  from Suc.prems obtain gr s1 where g: "get n b (parent_of p) s = Some (gr, s1)"
    by (auto simp: e1 split: option.splits)
  then have g': "get (Suc n) b (parent_of p) s = Some (gr, s1)"
    by (rule get_mono_Suc)
  show ?case
  proof (cases "\<exists>err. gr = Inl err \<and> IsObjectNotFound err")
    case False
    then show ?thesis
      using Suc.prems g g' by (cases gr) (auto simp: e1 e2)
  next
    case True
    then obtain err where e: "gr = Inl err" "IsObjectNotFound err"
      by blast
    with Suc.prems g obtain mr s2 where m: "mkdir n b (parent_of p) s1 = Some (mr, s2)"
      by (auto simp: e1 split: option.splits)
    then have m': "mkdir (Suc n) b (parent_of p) s1 = Some (mr, s2)"
      using Suc.IH by blast
    show ?thesis
    proof (cases mr)
      case (Some em)
      then show ?thesis
        using Suc.prems g g' e m m' by (auto simp: e1 e2)
    next
      case None
      with Suc.prems g e m obtain gr2 where h: "get n b (parent_of p) s2 = Some gr2"
        by (auto simp: e1 split: option.splits)
      then have "get (Suc n) b (parent_of p) s2 = Some gr2"
        by (rule get_mono_Suc)
      with Suc.prems g g' e m m' None h show ?thesis
        by (auto simp: e1 e2)
    qed
  qed
qed

lemma mkdir_mono: "mkdir m b p s = Some r \<Longrightarrow> m \<le> n \<Longrightarrow> mkdir n b p s = Some r"
  by (induction n) (auto simp: le_Suc_eq mkdir_mono_Suc)

section \<open>Write, then read\<close>

text \<open>
  On the backend in memory without the direct getter, the resolution of an absolute clean
  path is the walk along its elements, and it needs one level of \<open>get\<close> and one of
  \<open>list\<close> for each element.
\<close>

lemma scan_kids:
  "scan c (WrapObjsName (\<lambda>n. n) (kids es parent)) =
     (case entry_at es parent c of
        Some e \<Rightarrow> Inr (shown e)
      | None \<Rightarrow> Inl (WithStack ObjectNotFound))"
  by (induction es)
     (auto simp: scan_def WrapObjsName_def WrapObjName_def kids_def entry_at_def shown_def)

lemma direct_get_mem [simp]: "direct_get (mem strict False) path s = (path, None, s)"
  by (simp add: direct_get_def mem_def)

lemma root_folder_mem [simp]: "root_folder (mem strict direct) s = (Inr root_dir, s)"
  by (simp add: root_folder_def mem_def root_dir_def)

lemma mem_fields [simp]:
  "driver_List (mem strict direct) = mem_List"
  "driver_Link (mem strict direct) = mem_Link"
  "driver_MappingName (mem strict direct) = (\<lambda>n. n)"
  "driver_PutResult (mem strict direct) = None"
  "driver_Put (mem strict direct) = Some mem_Put"
  "driver_MkdirResult (mem strict direct) = None"
  "driver_Mkdir (mem strict direct) = Some (mem_MakeDir strict)"
  by (simp_all add: mem_def)

lemma mem_List_kids: "mem_List d s = (Inr (kids (entries s) (GetPath d)), logged (CallList (GetPath d)) s)"
  by (simp add: mem_List_def kids_def)

lemma get_walk:
  assumes "\<forall>c\<in>set rcs. elem c"
  shows "get (Suc (2 * length rcs)) (mem strict False) (abs_path (rev rcs)) s =
           Some (walk (entries s) rcs, s\<lparr>calls := calls s @ trail (entries s) rcs\<rparr>)"
  using assms
proof (induction rcs)
  case Nil
  then show ?case
    by (simp add: get.simps abs_path_def)
next
  case (Cons c rcs)
  let ?b = "mem strict False"
  let ?p = "abs_path (rev rcs @ [c])"
  let ?s' = "s\<lparr>calls := calls s @ trail (entries s) rcs\<rparr>"
  have el: "\<forall>x\<in>set (rev rcs). elem x" "elem c" "\<forall>x\<in>set (rev rcs @ [c]). elem x"
    using Cons.prems by simp_all
  have nr: "?p \<noteq> ''/''"
    using abs_path_not_root [OF el(3)] by simp
  have pa: "parent_of ?p = abs_path (rev rcs)"
    using el by (simp add: parent_of_abs)
  have ba: "Base ?p = c"
    using el by (simp add: Base_abs)
  have ih: "get (Suc (2 * length rcs)) ?b (abs_path (rev rcs)) s = Some (walk (entries s) rcs, ?s')"
    using Cons by simp
  have g: "get (Suc (2 * length (c # rcs))) ?b ?p s =
      (case list (Suc (Suc (2 * length rcs))) ?b (abs_path (rev rcs)) s of
         None \<Rightarrow> None
       | Some (Inl err, s') \<Rightarrow> Some (Inl (WithMessage err ''failed get parent list''), s')
       | Some (Inr files, s') \<Rightarrow> Some (scan (Base ?p) files, s'))"
    using nr pa by (simp add: get.simps)
  show ?case
  proof (cases "walk (entries s) rcs")
    case (Inl err)
    then show ?thesis
      using g ih by (simp add: list.simps)
  next
    case (Inr d)
    then show ?thesis
      using g ih
      by (simp add: list.simps mem_List_kids scan_kids logged_def ba split: option.splits)
  qed
qed


lemma entry_at_append:
  "entry_at (es @ fs) p c = (case entry_at es p c of Some e \<Rightarrow> Some e | None \<Rightarrow> entry_at fs p c)"
  by (induction es) (auto simp: entry_at_def)

lemma entry_at_single:
  "entry_at [] p c = None"
  "entry_at (e # es) p c =
     (if entry_Parent e = p \<and> Name (entry_Obj e) = c then Some e else entry_at es p c)"
  by (simp_all add: entry_at_def)

lemma find_append':
  "find P (es @ fs) = (case find P es of Some e \<Rightarrow> Some e | None \<Rightarrow> find P fs)"
  by (induction es) auto

lemma shown_simps [simp]:
  "IsDir (shown e) = IsFolder (entry_Obj e)"
  "GetPath (shown e) = Path (entry_Obj e)"
  "GetName (shown e) = Name (entry_Obj e)"
  by (simp_all add: shown_def)

lemma root_dir_simps [simp]: "IsDir root_dir" "GetPath root_dir = ''/''"
  by (simp_all add: root_dir_def)

lemma dir_entry_simps [simp]:
  "entry_Parent (dir_entry p n) = p"
  "Name (entry_Obj (dir_entry p n)) = n"
  "Path (entry_Obj (dir_entry p n)) = child_path p n"
  "IsFolder (entry_Obj (dir_entry p n))"
  by (simp_all add: dir_entry_def)

lemma file_entry_simps [simp]:
  "entry_Parent (file_entry p n sz m d) = p"
  "Name (entry_Obj (file_entry p n sz m d)) = n"
  "Path (entry_Obj (file_entry p n sz m d)) = child_path p n"
  "\<not> IsFolder (entry_Obj (file_entry p n sz m d))"
  "entry_Data (file_entry p n sz m d) = d"
  by (simp_all add: file_entry_def)

lemma absentD:
  assumes "absent s parent name"
  shows "entry_at (entries s) parent name = None"
    and "find (\<lambda>e. Path (entry_Obj e) = child_path parent name) (entries s) = None"
    and "filter (\<lambda>e. Path (entry_Obj e) \<noteq> child_path parent name) (entries s) = entries s"
  using assms
  by (auto simp: absent_def entry_at_def find_None_iff list_all_iff filter_id_conv)

lemma mkdir_found:
  "get n b (parent_of dir) s = Some (Inr parent, s1) \<Longrightarrow>
     mkdir (Suc n) b dir s = Some (MakeDir b parent (Base dir) s1)"
  by (simp add: mkdir.simps)

lemma mkdir_missing:
  "get n b (parent_of dir) s = Some (Inl err, s1) \<Longrightarrow> IsObjectNotFound err \<Longrightarrow>
     mkdir n b (parent_of dir) s1 = Some (None, s2) \<Longrightarrow>
     get n b (parent_of dir) s2 = Some (Inr parent, s3) \<Longrightarrow>
     mkdir (Suc n) b dir s = Some (MakeDir b parent (Base dir) s3)"
  by (simp add: mkdir.simps)

lemma MakeDir_mem:
  "find (\<lambda>e. Path (entry_Obj e) = child_path (GetPath parent) name) (entries s) = None \<Longrightarrow>
     MakeDir (mem strict False) parent name s =
       (None, logged (CallMakeDir (GetPath parent) name)
                (s\<lparr>entries := entries s @ [dir_entry (GetPath parent) name]\<rparr>))"
  by (simp add: MakeDir_def mem_MakeDir_def WithStack_opt_def Let_def)

text \<open>
  Write, then read, on the backend in memory without the direct getter, whether or not it
  refuses to create a directory twice. Its store is any store in which the namespace
  prefix is there and in which x is free under the prefix, y under x and z under x/y.
  For proper path elements x, y and z, Put of data to /x/y/z returns without error, a
  Read of the same path from offset 0 with the length of data then returns exactly data,
  and after that the paths of x and of x/y under the prefix resolve to directories. Nine
  levels of calls are enough, and so is every greater bound.
\<close>

theorem write_read_roundtrip:
  assumes x: "elem x" and y: "elem y" and z: "elem z"
    and ready: "prefix_ready s"
    and no_x: "absent s ''/juicefs'' x"
    and no_y: "absent s (child_path ''/juicefs'' x) y"
    and no_z: "absent s (child_path (child_path ''/juicefs'' x) y) z"
    and fuel: "9 \<le> n"
  shows "\<exists>s1 s2.
           Put n (mem strict False) (CHR ''/'' # x @ CHR ''/'' # y @ CHR ''/'' # z) (Inr data) now1 now2 s
             = Some (None, s1)
         \<and> Read n (mem strict False) (CHR ''/'' # x @ CHR ''/'' # y @ CHR ''/'' # z) 0 (int (length data)) s1
             = Some (Inr data, s2)
         \<and> (\<exists>d s3. get n (mem strict False) (''/juicefs/'' @ x) s2 = Some (Inr d, s3) \<and> IsDir d)
         \<and> (\<exists>d s3. get n (mem strict False) (''/juicefs/'' @ x @ CHR ''/'' # y) s2 = Some (Inr d, s3)
               \<and> IsDir d)"
proof -
  let ?b = "mem strict False"
  let ?E = "entries s"
  define name where "name = CHR ''/'' # x @ CHR ''/'' # y @ CHR ''/'' # z"
  define Px where "Px = ''/juicefs/'' @ x"
  define Pxy where "Pxy = ''/juicefs/'' @ x @ CHR ''/'' # y"
  define Pxyz where "Pxyz = ''/juicefs/'' @ x @ CHR ''/'' # y @ CHR ''/'' # z"
  define dx where "dx = dir_entry ''/juicefs'' x"
  define dy where "dy = dir_entry Px y"
  define fz where "fz = file_entry Pxy z (int (length data)) now1 data"
  have ne: "x \<noteq> []" "y \<noteq> []" "z \<noteq> []"
    using x y z by (auto simp: elem_def)
  have cp: "child_path ''/juicefs'' x = Px" "child_path Px y = Pxy" "child_path Pxy z = Pxyz"
    by (simp_all add: child_path_def Px_def Pxy_def Pxyz_def)
  have di [simp]:
    "Px \<noteq> ''/''" "Px \<noteq> ''/juicefs''" "Pxy \<noteq> ''/''" "Pxy \<noteq> ''/juicefs''" "Pxy \<noteq> Px"
    "''/juicefs'' \<noteq> Px" "''/juicefs'' \<noteq> Pxy" "Px \<noteq> Pxy"
    "Px \<noteq> Pxyz" "Pxy \<noteq> Pxyz" "Pxyz \<noteq> Px" "Pxyz \<noteq> Pxy"
    using ne by (simp_all add: Px_def Pxy_def Pxyz_def)
  have el: "\<forall>c\<in>set [''juicefs'']. elem c" "\<forall>c\<in>set [x, ''juicefs'']. elem c"
    "\<forall>c\<in>set [y, x, ''juicefs'']. elem c" "\<forall>c\<in>set [z, y, x, ''juicefs'']. elem c"
    "\<forall>c\<in>set [x, y, z]. elem c"
    using x y z by (simp_all add: elem_def)
  have ap: "abs_path [''juicefs''] = ''/juicefs''" "abs_path [''juicefs'', x] = Px"
    "abs_path [''juicefs'', x, y] = Pxy" "abs_path [''juicefs'', x, y, z] = Pxyz"
    "abs_path [x, y, z] = name"
    by (simp_all add: abs_path_def Px_def Pxy_def Pxyz_def name_def)
  have en [simp]:
    "entry_Parent dx = ''/juicefs''" "Name (entry_Obj dx) = x" "Path (entry_Obj dx) = Px"
    "IsFolder (entry_Obj dx)"
    "entry_Parent dy = Px" "Name (entry_Obj dy) = y" "Path (entry_Obj dy) = Pxy"
    "IsFolder (entry_Obj dy)"
    "entry_Parent fz = Pxy" "Name (entry_Obj fz) = z" "Path (entry_Obj fz) = Pxyz"
    "\<not> IsFolder (entry_Obj fz)" "entry_Data fz = data"
    by (simp_all add: dx_def dy_def fz_def cp)
  obtain ej where ej: "entry_at ?E ''/'' ''juicefs'' = Some ej" "IsFolder (entry_Obj ej)"
      "Path (entry_Obj ej) = ''/juicefs''"
    using ready by (auto simp: prefix_ready_def baseDir_def split: option.splits)
  note ax = absentD [OF no_x, unfolded cp]
  note ay = absentD [OF no_y, unfolded cp]
  note az = absentD [OF no_z, unfolded cp]
  \<comment> \<open>the paths that Put computes\<close>
  have nm: "Join baseDir name = Pxyz"
    using Join_baseDir_abs [OF el(5)] by (simp add: ap)
  have dir: "Dir Pxyz = Pxy" "Base Pxyz = z"
    using Dir_abs [of "[''juicefs'', x, y]" z] Base_abs [of z "[''juicefs'', x, y]"] el(4) z
    by (simp_all add: ap)
  have pxy: "parent_of Pxy = Px" "Base Pxy = y"
    using parent_of_abs [of "[''juicefs'', x]" y] Base_abs [of y "[''juicefs'', x]"] el(3) y
    by (simp_all add: ap)
  have px: "parent_of Px = ''/juicefs''" "Base Px = x"
    using parent_of_abs [of "[''juicefs'']" x] Base_abs [of x "[''juicefs'']"] el(2) x
    by (simp_all add: ap)
  \<comment> \<open>mkdir of the parent directory: x is missing, so it is created first\<close>
  define sa where "sa = s\<lparr>calls := calls s @ trail ?E [x, ''juicefs'']\<rparr>"
  have g1: "get 5 ?b Px s = Some (Inl (WithStack ObjectNotFound), sa)"
    using get_walk [OF el(2), of strict s] ej ax(1) by (simp add: ap sa_def)
  define sb where "sb = sa\<lparr>calls := calls sa @ trail ?E [''juicefs'']\<rparr>"
  have Ea: "entries sa = ?E" "entries sb = ?E"
    by (simp_all add: sa_def sb_def)
  have g2: "get 3 ?b ''/juicefs'' sa = Some (Inr (shown ej), sb)"
    using get_walk [OF el(1), of strict sa] ej by (simp add: ap Ea sb_def)
  define sc where "sc = logged (CallMakeDir ''/juicefs'' x) (sb\<lparr>entries := ?E @ [dx]\<rparr>)"
  have mk1: "MakeDir ?b (shown ej) x sb = (None, sc)"
    using MakeDir_mem [of "shown ej" x sb strict] ej ax(2)
    by (simp add: cp Ea sc_def dx_def)
  have m1: "mkdir 4 ?b Px sa = Some (None, sc)"
    using mkdir_found [of 3 ?b Px sa "shown ej" sb] g2 mk1 by (simp add: px)
  have Ex: "entries sc = ?E @ [dx]"
    by (simp add: sc_def logged_def)
  define sd where "sd = sc\<lparr>calls := calls sc @ trail (?E @ [dx]) [x, ''juicefs'']\<rparr>"
  have g3: "get 5 ?b Px sc = Some (Inr (shown dx), sd)"
    using get_walk [OF el(2), of strict sc] ej ax(1)
    by (simp add: ap sd_def Ex entry_at_append entry_at_single)
  have Exd: "entries sd = ?E @ [dx]"
    by (simp add: sd_def Ex)
  define se where "se = logged (CallMakeDir Px y) (sd\<lparr>entries := ?E @ [dx, dy]\<rparr>)"
  have mk2: "MakeDir ?b (shown dx) y sd = (None, se)"
    using MakeDir_mem [of "shown dx" y sd strict] ay(2)
    by (simp add: cp Exd se_def dy_def find_append')
  have m2: "mkdir 6 ?b Pxy s = Some (None, se)"
  proof -
    have a: "get 5 ?b (parent_of Pxy) s = Some (Inl (WithStack ObjectNotFound), sa)"
      using g1 by (simp add: pxy)
    have b: "IsObjectNotFound (WithStack ObjectNotFound)"
      by (simp add: IsObjectNotFound_def)
    have c: "mkdir 5 ?b (parent_of Pxy) sa = Some (None, sc)"
      using mkdir_mono [OF m1, of 5] by (simp add: pxy)
    have d: "get 5 ?b (parent_of Pxy) sc = Some (Inr (shown dx), sd)"
      using g3 by (simp add: pxy)
    show ?thesis
      using mkdir_missing [OF a b c d] mk2 by (simp add: pxy)
  qed
  \<comment> \<open>the parent directory resolves, and Put stores the file in it\<close>
  have Exy: "entries se = ?E @ [dx, dy]"
    by (simp add: se_def logged_def)
  define sf where "sf = se\<lparr>calls := calls se @ trail (?E @ [dx, dy]) [y, x, ''juicefs'']\<rparr>"
  have g4: "get 7 ?b Pxy se = Some (Inr (shown dy), sf)"
    using get_walk [OF el(3), of strict se] ej ax(1) ay(1)
    by (simp add: ap sf_def Exy entry_at_append entry_at_single)
  have Exf: "entries sf = ?E @ [dx, dy]"
    by (simp add: sf_def Exy)
  define sg where "sg = logged (CallPut Pxy z) (sf\<lparr>entries := ?E @ [dx, dy, fz]\<rparr>)"
  have up: "mem_Put (shown dy) (upload z data now1 now2) sf = (None, sg)"
    using az(3) by (simp add: mem_Put_def upload_def Let_def sg_def Exf cp fz_def [symmetric])
  have P: "Put n ?b name (Inr data) now1 now2 s = Some (None, sg)"
  proof -
    have a: "mkdir n ?b Pxy s = Some (None, se)"
      using mkdir_mono [OF m2, of n] fuel by simp
    have b: "get n ?b Pxy se = Some (Inr (shown dy), sf)"
      using get_mono [OF g4, of n] fuel by simp
    show ?thesis
      using a b up by (simp add: Put_def nm dir WithStack_opt_def)
  qed
  \<comment> \<open>Read finds the file and its bytes\<close>
  have Exyz: "entries sg = ?E @ [dx, dy, fz]"
    by (simp add: sg_def logged_def)
  define sh where "sh = sg\<lparr>calls := calls sg @ trail (?E @ [dx, dy, fz]) [z, y, x, ''juicefs'']\<rparr>"
  have g5: "get 9 ?b Pxyz sg = Some (Inr (shown fz), sh)"
    using get_walk [OF el(4), of strict sg] ej ax(1) ay(1) az(1)
    by (simp add: ap sh_def Exyz entry_at_append entry_at_single)
  have Exh: "entries sh = ?E @ [dx, dy, fz]"
    by (simp add: sh_def Exyz)
  define si where "si = logged (CallLink Pxyz) sh"
  have lk: "mem_Link (shown fz) sh = (Inr data, si)"
    using az(2) by (simp add: mem_Link_def si_def Exh find_append')
  have R: "Read n ?b name 0 (int (length data)) sg = Some (Inr data, si)"
  proof -
    have "get n ?b Pxyz sg = Some (Inr (shown fz), sh)"
      using get_mono [OF g5, of n] fuel by simp
    then show ?thesis
      using lk by (simp add: Read_def nm NewSeekableStream_def RangeRead_def)
  qed
  \<comment> \<open>the intermediate directories are there\<close>
  have Ei: "entries si = ?E @ [dx, dy, fz]"
    by (simp add: si_def Exh logged_def)
  have g6: "get 5 ?b Px si = Some (Inr (shown dx), si\<lparr>calls := calls si @ trail (entries si) [x, ''juicefs'']\<rparr>)"
    using get_walk [OF el(2), of strict si] ej ax(1)
    by (simp add: ap Ei entry_at_append entry_at_single)
  have g7: "get 7 ?b Pxy si = Some (Inr (shown dy), si\<lparr>calls := calls si @ trail (entries si) [y, x, ''juicefs'']\<rparr>)"
    using get_walk [OF el(3), of strict si] ej ax(1) ay(1)
    by (simp add: ap Ei entry_at_append entry_at_single)
  have D1: "\<exists>d s3. get n ?b Px si = Some (Inr d, s3) \<and> IsDir d"
    using get_mono [OF g6, of n] fuel by (intro exI [of _ "shown dx"]) auto
  have D2: "\<exists>d s3. get n ?b Pxy si = Some (Inr d, s3) \<and> IsDir d"
    using get_mono [OF g7, of n] fuel by (intro exI [of _ "shown dy"]) auto
  from P R D1 D2 show ?thesis
    unfolding name_def Px_def Pxy_def by blast
qed

theorem write_read_roundtrip_witness:
  "elem ''x'' \<and> elem ''y'' \<and> elem ''z'' \<and> prefix_ready store_new
   \<and> absent store_new ''/juicefs'' ''x''
   \<and> absent store_new (child_path ''/juicefs'' ''x'') ''y''
   \<and> absent store_new (child_path (child_path ''/juicefs'' ''x'') ''y'') ''z''
   \<and> (\<exists>s1 s2.
         Put 9 (mem True False) ''/x/y/z'' (Inr ''hello'') 1 2 store_new = Some (None, s1)
       \<and> Read 9 (mem True False) ''/x/y/z'' 0 5 s1 = Some (Inr ''hello'', s2)
       \<and> (\<exists>d s3. get 9 (mem True False) ''/juicefs/x'' s2 = Some (Inr d, s3) \<and> IsDir d)
       \<and> (\<exists>d s3. get 9 (mem True False) ''/juicefs/x/y'' s2 = Some (Inr d, s3) \<and> IsDir d))"
proof -
  have h: "elem ''x''" "elem ''y''" "elem ''z''" "prefix_ready store_new"
    "absent store_new ''/juicefs'' ''x''"
    "absent store_new (child_path ''/juicefs'' ''x'') ''y''"
    "absent store_new (child_path (child_path ''/juicefs'' ''x'') ''y'') ''z''"
    by code_simp+
  have n: "(9::nat) \<le> 9"
    by simp
  show ?thesis
    using write_read_roundtrip [OF h n, of True "''hello''" 1 2] h by simp
qed

section \<open>Backends without the direct getter\<close>

text \<open>
  Clean never writes more than it reads, and it drops a final slash. So the parent that
  \<open>get\<close> and \<open>mkdir\<close> go on to is the root or a shorter path.
\<close>

lemma weight_simps [simp]:
  "weight [] = 0"
  "weight (e # es) = Suc (length e) + weight es"
  "weight (es @ fs) = weight es + weight fs"
  "weight (rev es) = weight es"
  by (simp_all add: weight_def rev_map [symmetric])

lemma split_slash_weight: "weight (split_slash p) = Suc (length p)"
  by (induction p) (auto split: list.splits)

lemma join_slash_length: "es \<noteq> [] \<Longrightarrow> Suc (length (join_slash es)) = weight es"
  by (induction es rule: join_slash.induct) auto

lemma weight_tl: "weight (tl out) \<le> weight out"
  by (cases out) auto

lemma clean_elem_weight:
  "weight (clean_elem r out e) \<le> weight out + (if e = [] then 0 else Suc (length e))"
  using weight_tl [of out] by (auto simp: clean_elem_def)

lemma fold_weight:
  "weight (foldl (clean_elem r) acc es) \<le> weight acc + weight (filter (\<lambda>e. e \<noteq> []) es)"
proof (induction es arbitrary: acc)
  case Nil
  then show ?case by simp
next
  case (Cons e es)
  have "weight (foldl (clean_elem r) (clean_elem r acc e) es)
      \<le> weight (clean_elem r acc e) + weight (filter (\<lambda>e. e \<noteq> []) es)"
    by (rule Cons.IH)
  with clean_elem_weight [of r acc e] show ?case
    by (auto split: if_splits)
qed

lemma weight_filter: "weight (filter P es) \<le> weight es"
  by (induction es) auto

lemma split_slash_snoc: "split_slash (q @ ''/'') = split_slash q @ [[]]"
  by (induction q) (auto split: list.splits)

lemma Clean_slash_short:
  "Clean (q @ ''/'') = ''/'' \<or> Clean (q @ ''/'') = ''.'' \<or> length (Clean (q @ ''/'')) \<le> length q"
proof (cases q)
  case Nil
  then show ?thesis by (simp add: Clean_def clean_elem_def)
next
  case (Cons c q')
  show ?thesis
  proof (cases "c = CHR ''/''")
    case True
    let ?out = "rev (foldl (clean_elem True) [] (split_slash q'))"
    have sq: "split_slash q = [] # split_slash q'"
      using Cons True by simp
    have "hd (q @ ''/'') = CHR ''/''"
      using Cons True by simp
    then have c: "Clean (q @ ''/'') = CHR ''/'' # join_slash ?out"
      by (simp add: Clean_def split_slash_snoc sq clean_elem_def)
    show ?thesis
    proof (cases "?out = []")
      case True
      with c show ?thesis by simp
    next
      case False
      then have "Suc (length (join_slash ?out)) = weight ?out"
        by (rule join_slash_length)
      also have "\<dots> = weight (foldl (clean_elem True) [] (split_slash q'))"
        by (simp add: rev_map [symmetric])
      also have "\<dots> \<le> weight (filter (\<lambda>e. e \<noteq> []) (split_slash q'))"
        using fold_weight [of True "[]" "split_slash q'"] by simp
      also have "\<dots> \<le> weight (split_slash q')"
        by (rule weight_filter)
      also have "\<dots> = length q"
        using Cons by (simp add: split_slash_weight)
      finally show ?thesis
        using c by simp
    qed
  next
    case False
    let ?out = "rev (foldl (clean_elem False) [] (split_slash q))"
    have "hd (q @ ''/'') \<noteq> CHR ''/''"
      using Cons False by simp
    then have c: "Clean (q @ ''/'') = (if ?out = [] then ''.'' else join_slash ?out)"
      by (simp add: Clean_def split_slash_snoc clean_elem_def)
    show ?thesis
    proof (cases "?out = []")
      case True
      with c show ?thesis by simp
    next
      case nonempty: False
      then have "Suc (length (join_slash ?out)) = weight ?out"
        by (rule join_slash_length)
      also have "\<dots> = weight (foldl (clean_elem False) [] (split_slash q))"
        by (simp add: rev_map [symmetric])
      also have "\<dots> \<le> weight (filter (\<lambda>e. e \<noteq> []) (split_slash q))"
        using fold_weight [of False "[]" "split_slash q"] by simp
      also have "\<dots> \<le> weight (split_slash q)"
        by (rule weight_filter)
      also have "\<dots> = Suc (length q)"
        by (simp add: split_slash_weight)
      finally show ?thesis
        using c nonempty by simp
    qed
  qed
qed

lemma dir_part_shape:
  "rev (dropWhile (\<lambda>c. c \<noteq> CHR ''/'') (rev p)) = []
   \<or> (\<exists>q. rev (dropWhile (\<lambda>c. c \<noteq> CHR ''/'') (rev p)) = q @ ''/'' \<and> length q < length p)"
proof (cases "dropWhile (\<lambda>c. c \<noteq> CHR ''/'') (rev p)")
  case Nil
  then show ?thesis by simp
next
  case (Cons c r)
  then have "c = CHR ''/''"
    using hd_dropWhile [of "\<lambda>c. c \<noteq> CHR ''/''" "rev p"] by auto
  moreover have "length (dropWhile (\<lambda>c. c \<noteq> CHR ''/'') (rev p)) \<le> length p"
    using length_dropWhile_le [of "\<lambda>c. c \<noteq> CHR ''/''" "rev p"] by simp
  ultimately show ?thesis
    using Cons by auto
qed

lemma parent_of_short: "parent_of p = ''/'' \<or> length (parent_of p) < length p"
proof -
  consider "rev (dropWhile (\<lambda>c. c \<noteq> CHR ''/'') (rev p)) = []"
    | q where "rev (dropWhile (\<lambda>c. c \<noteq> CHR ''/'') (rev p)) = q @ ''/''" "length q < length p"
    using dir_part_shape [of p] by blast
  then show ?thesis
  proof cases
    case 1
    then show ?thesis
      by (simp add: parent_of_def Dir_def Clean_def)
  next
    case 2
    then show ?thesis
      using Clean_slash_short [of q]
      by (auto simp: parent_of_def Dir_def Let_def)
  qed
qed

text \<open>
  Without the direct getter every resolution returns: the recursion between \<open>get\<close> and
  \<open>list\<close> goes from a path to its parent and ends at the root.
\<close>

lemma get_returns:
  assumes "driver_Getter b = None"
  shows "\<exists>n r. get n b p s = Some r"
proof (induction p arbitrary: s rule: measure_induct_rule [of "\<lambda>p. if p = ''/'' then 0 else Suc (length p)"])
  case (less p)
  show ?case
  proof (cases "p = ''/''")
    case True
    then show ?thesis
      using assms by (intro exI [of _ "Suc 0"]) (simp add: get.simps direct_get_def)
  next
    case False
    then have "(if parent_of p = ''/'' then 0 else Suc (length (parent_of p))) < (if p = ''/'' then 0 else Suc (length p))"
      using parent_of_short [of p] by auto
    then obtain k r where g: "get k b (parent_of p) s = Some r"
      using less [of "parent_of p" s] by blast
    have "\<exists>lr. list (Suc k) b (parent_of p) s = Some lr"
      by (auto simp: list.simps g split: sum.splits prod.splits)
    then obtain lr where "list (Suc k) b (parent_of p) s = Some lr"
      by blast
    then have "\<exists>r. get (Suc (Suc k)) b p s = Some r"
      using assms False
      by (cases lr) (auto simp: get.simps direct_get_def split: sum.splits)
    then show ?thesis by blast
  qed
qed

text \<open>
  Without the direct getter, and when the root strategy never fails with NotFound, mkdir
  returns for every directory path and from every state of the backend: it calls itself
  only on the parent, and only when the parent is not the root.
\<close>

lemma mkdir_returns:
  assumes getter: "driver_Getter b = None"
    and root: "\<And>s err s'. root_folder b s = (Inl err, s') \<Longrightarrow> \<not> IsObjectNotFound err"
  shows "\<exists>n r. mkdir n b dir s = Some r"
proof (induction dir arbitrary: s rule: measure_induct_rule [of "\<lambda>p. if p = ''/'' then 0 else Suc (length p)"])
  case (less dir)
  let ?p = "parent_of dir"
  obtain k gr s1 where g: "get k b ?p s = Some (gr, s1)"
    using get_returns [OF getter, of ?p s] by auto
  show ?case
  proof (cases "\<exists>err. gr = Inl err \<and> IsObjectNotFound err")
    case False
    then have "\<exists>r. mkdir (Suc k) b dir s = Some r"
      using g by (cases gr) (auto simp: mkdir.simps)
    then show ?thesis by blast
  next
    case True
    then obtain err where e: "gr = Inl err" "IsObjectNotFound err"
      by blast
    have nr: "?p \<noteq> ''/''"
    proof
      assume r: "?p = ''/''"
      have "k \<noteq> 0"
        using g by (cases k) (auto simp: get.simps)
      then obtain j where "k = Suc j"
        by (cases k) auto
      then have "root_folder b s = (Inl err, s1)"
        using g e r getter by (simp add: get.simps direct_get_def)
      with root e show False by blast
    qed
    then have "dir \<noteq> ''/''"
      using parent_of_short [of dir] by (auto simp: parent_of_def Dir_def Clean_def clean_elem_def)
    with nr have "(if ?p = ''/'' then 0 else Suc (length ?p)) < (if dir = ''/'' then 0 else Suc (length dir))"
      using parent_of_short [of dir] by auto
    then obtain k2 mr s2 where m: "mkdir k2 b ?p s1 = Some (mr, s2)"
      using less [of ?p s1] by auto
    show ?thesis
    proof (cases mr)
      case (Some em)
      let ?n = "max k k2"
      have "get ?n b ?p s = Some (gr, s1)" "mkdir ?n b ?p s1 = Some (mr, s2)"
        using get_mono [OF g, of ?n] mkdir_mono [OF m, of ?n] by simp_all
      then have "\<exists>r. mkdir (Suc ?n) b dir s = Some r"
        using e Some by (simp add: mkdir.simps)
      then show ?thesis by blast
    next
      case None
      obtain k3 gr3 where g3: "get k3 b ?p s2 = Some gr3"
        using get_returns [OF getter, of ?p s2] by auto
      let ?n = "max k (max k2 k3)"
      have "get ?n b ?p s = Some (gr, s1)" "mkdir ?n b ?p s1 = Some (mr, s2)"
        "get ?n b ?p s2 = Some gr3"
        using get_mono [OF g, of ?n] mkdir_mono [OF m, of ?n] get_mono [OF g3, of ?n] by simp_all
      then have "\<exists>r. mkdir (Suc ?n) b dir s = Some r"
        using e None by (cases gr3) (auto simp: mkdir.simps split: sum.splits)
      then show ?thesis by blast
    qed
  qed
qed

section \<open>The root behind the direct getter\<close>

text \<open>
  With the direct getter the path "/" is replaced by the namespace prefix before the
  lookup. When nothing is stored there the lookup fails, the path is no longer "/", and
  the resolution goes to the parent of the prefix, which is "/" again.
\<close>

lemma getter_root_loop:
  "\<forall>e\<in>set (entries s). Path (entry_Obj e) \<noteq> ''/juicefs'' \<Longrightarrow>
     get n (mem strict True) ''/'' s = None"
proof (induction n arbitrary: s rule: less_induct)
  case (less n)
  have j: "Join baseDir ''/'' = ''/juicefs''"
    by code_simp
  have p: "parent_of ''/juicefs'' = ''/''"
    by code_simp
  have f: "find (\<lambda>e. Path (entry_Obj e) = ''/juicefs'') (entries s) = None"
    using less.prems by (simp add: find_None_iff)
  have d: "direct_get (mem strict True) ''/'' s = (''/juicefs'', None, logged (CallGet ''/juicefs'') s)"
    using f by (simp add: direct_get_def mem_def baseDir_def j [unfolded baseDir_def] mem_Get_def Let_def)
  show ?case
  proof (cases n)
    case 0
    then show ?thesis by (simp add: get.simps)
  next
    case (Suc m)
    show ?thesis
    proof (cases m)
      case 0
      with Suc d show ?thesis by (simp add: get.simps list.simps p)
    next
      case (Suc k)
      have "get k (mem strict True) ''/'' (logged (CallGet ''/juicefs'') s) = None"
        using less.IH [of k "logged (CallGet ''/juicefs'') s"] less.prems Suc \<open>n = Suc m\<close>
        by (simp add: logged_def)
      with Suc \<open>n = Suc m\<close> d show ?thesis
        by (simp add: get.simps list.simps p)
    qed
  qed
qed

text \<open>
  Claim C3, at a failing input. The backend declares the root path "/" and has the
  direct getter; its store is empty. The resolution of "/" asks the getter for the
  namespace prefix, which is not there, goes on with the prefix in place of "/", and so
  never reaches the choice among root getter, root ID and root path: it does not
  return at any depth, and neither does \<open>New\<close>. On the same store without the direct
  getter the declared root path is wrapped into the root directory at once.
\<close>

theorem root_never_reached:
  "driver_IRootPath (mem strict True) = Some (\<lambda>s. ''/'')
   \<and> direct_get (mem strict True) ''/'' empty_store =
       (''/juicefs'', None, logged (CallGet ''/juicefs'') empty_store)
   \<and> get n (mem strict True) ''/'' empty_store = None
   \<and> New n (mem strict True) addition empty_store = None
   \<and> get 1 (mem strict False) ''/'' empty_store = Some (Inr root_dir, empty_store)"
proof -
  have e: "\<forall>e\<in>set (entries empty_store). Path (entry_Obj e) \<noteq> ''/juicefs''"
    by (simp add: empty_store_def)
  have r: "driver_IRootPath (mem strict True) = Some (\<lambda>s. ''/'')"
    by (simp add: mem_def)
  have j: "Join baseDir ''/'' = ''/juicefs''"
    by code_simp
  have d: "direct_get (mem strict True) ''/'' empty_store =
       (''/juicefs'', None, logged (CallGet ''/juicefs'') empty_store)"
    by (simp add: direct_get_def mem_def baseDir_def j [unfolded baseDir_def] mem_Get_def Let_def
        empty_store_def)
  have g: "get m (mem strict True) ''/'' empty_store = None" for m
    by (rule getter_root_loop [OF e])
  have p: "parent_of baseDir = ''/''"
    by code_simp
  have m: "mkdir n (mem strict True) baseDir empty_store = None"
    using g p by (cases n) (simp_all add: mkdir.simps)
  have N: "New n (mem strict True) addition empty_store = None"
    using m by (simp add: New_def mem_def)
  have s: "get 1 (mem strict False) ''/'' empty_store = Some (Inr root_dir, empty_store)"
    by (simp add: get.simps)
  show ?thesis by (intro conjI r d g N s)
qed

theorem root_never_reached_witness:
  "get 100 (mem True True) ''/'' empty_store = None \<and> New 100 (mem True True) [] empty_store = None"
  using root_never_reached [of True 100 "[]"] by simp

section \<open>Write, then read, behind the direct getter\<close>

text \<open>
  Claim C2, at a failing input. The store holds the namespace prefix and nothing else,
  so x, x/y and x/y/z are free, and the backend has the direct getter. Put of data to
  /x/y/z has to create /juicefs/x/y; the resolution of /juicefs/x asks the getter for
  /juicefs/juicefs/x, which is not there, goes on with that path, and Put does not
  return at any depth, whatever the data. On the same store without the direct getter
  Put returns without error and a Read of the path from offset 0 with the length of data
  returns exactly data.
\<close>

theorem write_loops:
  "Join baseDir ''/x/y/z'' = ''/juicefs/x/y/z''
   \<and> mem_Get (Join baseDir ''/juicefs/x'') store_new =
       (Inl ObjectNotFound, logged (CallGet ''/juicefs/juicefs/x'') store_new)
   \<and> Put n (mem strict True) ''/x/y/z'' (Inr data) now1 now2 store_new = None
   \<and> (\<exists>s1 s2. Put 9 (mem strict False) ''/x/y/z'' (Inr data) now1 now2 store_new = Some (None, s1)
          \<and> Read 9 (mem strict False) ''/x/y/z'' 0 (int (length data)) s1 = Some (Inr data, s2))"
proof -
  let ?s = "logged (CallGet ''/juicefs/juicefs/x'') store_new"
  have j: "Join baseDir ''/x/y/z'' = ''/juicefs/x/y/z''" "Join baseDir ''/juicefs/x'' = ''/juicefs/juicefs/x''"
    by code_simp+
  have q: "mem_Get (Join baseDir ''/juicefs/x'') store_new = (Inl ObjectNotFound, ?s)"
    by code_simp
  have d: "direct_get (mem strict True) ''/juicefs/x'' store_new = (''/juicefs/juicefs/x'', None, ?s)"
    using q by (simp add: direct_get_def mem_def baseDir_def j(2) [unfolded baseDir_def] Let_def)
  have p: "parent_of ''/juicefs/juicefs/x'' = ''/juicefs/juicefs''" "parent_of ''/juicefs/x/y'' = ''/juicefs/x''"
    "Dir ''/juicefs/x/y/z'' = ''/juicefs/x/y''"
    by code_simp+
  have e: "\<forall>e\<in>set (entries ?s). Path (entry_Obj e) \<noteq> ''/juicefs/juicefs/juicefs''"
    by (simp add: logged_def store_new_def dir_entry_def child_path_def)
  have l: "list m (mem strict True) ''/juicefs/juicefs'' ?s = None" for m
    using getter_loop [OF e] by (cases m) (simp_all add: list.simps)
  have g: "get m (mem strict True) ''/juicefs/x'' store_new = None" for m
    using d p l by (cases m) (simp_all add: get.simps)
  have m: "mkdir m (mem strict True) ''/juicefs/x/y'' store_new = None" for m
    using g p by (cases m) (simp_all add: mkdir.simps)
  have P: "Put n (mem strict True) ''/x/y/z'' (Inr data) now1 now2 store_new = None"
    using m by (simp add: Put_def j p)
  have h: "elem ''x''" "elem ''y''" "elem ''z''" "prefix_ready store_new"
    "absent store_new ''/juicefs'' ''x''"
    "absent store_new (child_path ''/juicefs'' ''x'') ''y''"
    "absent store_new (child_path (child_path ''/juicefs'' ''x'') ''y'') ''z''"
    by code_simp+
  have n: "(9::nat) \<le> 9"
    by simp
  have S: "\<exists>s1 s2. Put 9 (mem strict False) ''/x/y/z'' (Inr data) now1 now2 store_new = Some (None, s1)
          \<and> Read 9 (mem strict False) ''/x/y/z'' 0 (int (length data)) s1 = Some (Inr data, s2)"
    using write_read_roundtrip [OF h n, of strict data now1 now2] by auto
  show ?thesis by (intro conjI j(1) q P S)
qed

theorem write_loops_witness:
  "Put 100 (mem False True) ''/x/y/z'' (Inr ''hello'') 1 2 store_new = None"
  using write_loops [of 100 False "''hello''" 1 2] by simp

section \<open>Creation of directories\<close>

text \<open>
  Claim C10. mkdir makes no check of the directory itself: what it returns is decided by
  the resolution of the parent and by the backend's MakeDir alone. Whenever it succeeds,
  a MakeDir of the backend for the base name of the directory has returned without
  error, the result-returning one when the backend has it and the plain one otherwise.
  As soon as the parent resolves, at once or after the parent was created, mkdir calls
  the result-returning MakeDir of the backend with the parent and the base name, or the
  plain MakeDir when there is only that, and returns the error of that call, under a
  stack trace, in the state the call left; with the parent resolved at once and neither
  variant it fails with NotImplement. Put runs mkdir on the parent directory of the
  target first: a Put that succeeds has had that mkdir succeed, and a failure of that
  mkdir fails the Put. New, after configuration and initialisation, is mkdir on the
  namespace prefix. The witness runs these on a store in which the prefix exists, with
  backends whose result-returning or plain MakeDir refuses to create a directory twice.
\<close>

theorem mkdir_always_creates:
  "(mkdir n b dir s = Some (None, s') \<longrightarrow>
      (\<exists>mkR parent s1 res. driver_MkdirResult b = Some mkR \<and> mkR parent (Base dir) s1 = ((res, None), s'))
    \<or> (\<exists>mk parent s1. driver_MkdirResult b = None \<and> driver_Mkdir b = Some mk
           \<and> mk parent (Base dir) s1 = (None, s')))
   \<and> (get n b (parent_of dir) s = Some (Inr parent, s1) \<longrightarrow>
        (driver_MkdirResult b = Some mkR \<longrightarrow> mkR parent (Base dir) s1 = ((res, e), s4) \<longrightarrow>
           mkdir (Suc n) b dir s = Some (map_option WithStack e, s4))
      \<and> (driver_MkdirResult b = None \<longrightarrow> driver_Mkdir b = Some mk \<longrightarrow>
           mk parent (Base dir) s1 = (e', s4') \<longrightarrow>
           mkdir (Suc n) b dir s = Some (map_option WithStack e', s4'))
      \<and> (driver_MkdirResult b = None \<longrightarrow> driver_Mkdir b = None \<longrightarrow>
           mkdir (Suc n) b dir s = Some (Some NotImplement, s1)))
   \<and> (get n b (parent_of dir) s = Some (Inl err, s0) \<longrightarrow> IsObjectNotFound err \<longrightarrow>
        mkdir n b (parent_of dir) s0 = Some (None, s2) \<longrightarrow>
        get n b (parent_of dir) s2 = Some (Inr parent', s3) \<longrightarrow>
        (driver_MkdirResult b = Some mkR' \<longrightarrow> mkR' parent' (Base dir) s3 = ((res', f), s5) \<longrightarrow>
           mkdir (Suc n) b dir s = Some (map_option WithStack f, s5))
      \<and> (driver_MkdirResult b = None \<longrightarrow> driver_Mkdir b = Some mk' \<longrightarrow>
           mk' parent' (Base dir) s3 = (f', s5') \<longrightarrow>
           mkdir (Suc n) b dir s = Some (map_option WithStack f', s5')))
   \<and> (mkdir n b (Dir (Join baseDir name)) s = Some (Some e1, s6) \<longrightarrow>
        Put n b name (Inr data) now1 now2 s =
          Some (Some (WithMessage e1 ''failed to make dir [/juicefs]''), s6))
   \<and> (Put n b name (Inr data) now1 now2 s = Some (None, s7) \<longrightarrow>
        (\<exists>s8. mkdir n b (Dir (Join baseDir name)) s = Some (None, s8)))
   \<and> (driver_Unmarshal b addition s = (None, s9) \<longrightarrow> driver_Init b s9 = (None, s10) \<longrightarrow>
        New n b addition s = mkdir n b baseDir s10)"
proof -
  have A: "mkdir n b dir s = Some (None, s') \<longrightarrow>
      (\<exists>mkR parent s1 res. driver_MkdirResult b = Some mkR \<and> mkR parent (Base dir) s1 = ((res, None), s'))
    \<or> (\<exists>mk parent s1. driver_MkdirResult b = None \<and> driver_Mkdir b = Some mk
           \<and> mk parent (Base dir) s1 = (None, s'))"
  proof (cases n)
    case 0
    then show ?thesis by (simp add: mkdir.simps)
  next
    case (Suc m)
    have M: "MakeDir b p (Base dir) t = (None, s') \<Longrightarrow>
      (\<exists>mkR parent s1 res. driver_MkdirResult b = Some mkR \<and> mkR parent (Base dir) s1 = ((res, None), s'))
    \<or> (\<exists>mk parent s1. driver_MkdirResult b = None \<and> driver_Mkdir b = Some mk
           \<and> mk parent (Base dir) s1 = (None, s'))" for p t
      by (auto simp: MakeDir_def WithStack_opt_def split: option.splits prod.splits)
    show ?thesis
      unfolding Suc mkdir.simps
      by (auto split: option.splits sum.splits prod.splits if_splits dest!: M)
  qed
  have B: "get n b (parent_of dir) s = Some (Inr parent, s1) \<longrightarrow>
        (driver_MkdirResult b = Some mkR \<longrightarrow> mkR parent (Base dir) s1 = ((res, e), s4) \<longrightarrow>
           mkdir (Suc n) b dir s = Some (map_option WithStack e, s4))
      \<and> (driver_MkdirResult b = None \<longrightarrow> driver_Mkdir b = Some mk \<longrightarrow>
           mk parent (Base dir) s1 = (e', s4') \<longrightarrow>
           mkdir (Suc n) b dir s = Some (map_option WithStack e', s4'))
      \<and> (driver_MkdirResult b = None \<longrightarrow> driver_Mkdir b = None \<longrightarrow>
           mkdir (Suc n) b dir s = Some (Some NotImplement, s1))"
    by (simp add: mkdir.simps MakeDir_def WithStack_opt_def)
  have C: "get n b (parent_of dir) s = Some (Inl err, s0) \<longrightarrow> IsObjectNotFound err \<longrightarrow>
        mkdir n b (parent_of dir) s0 = Some (None, s2) \<longrightarrow>
        get n b (parent_of dir) s2 = Some (Inr parent', s3) \<longrightarrow>
        (driver_MkdirResult b = Some mkR' \<longrightarrow> mkR' parent' (Base dir) s3 = ((res', f), s5) \<longrightarrow>
           mkdir (Suc n) b dir s = Some (map_option WithStack f, s5))
      \<and> (driver_MkdirResult b = None \<longrightarrow> driver_Mkdir b = Some mk' \<longrightarrow>
           mk' parent' (Base dir) s3 = (f', s5') \<longrightarrow>
           mkdir (Suc n) b dir s = Some (map_option WithStack f', s5'))"
    by (simp add: mkdir.simps MakeDir_def WithStack_opt_def)
  have F: "mkdir n b (Dir (Join baseDir name)) s = Some (Some e1, s6) \<longrightarrow>
        Put n b name (Inr data) now1 now2 s =
          Some (Some (WithMessage e1 ''failed to make dir [/juicefs]''), s6)"
    by (simp add: Put_def)
  have G: "Put n b name (Inr data) now1 now2 s = Some (None, s7) \<longrightarrow>
        (\<exists>s8. mkdir n b (Dir (Join baseDir name)) s = Some (None, s8))"
    by (auto simp: Put_def Let_def split: option.splits sum.splits prod.splits)
  have H: "driver_Unmarshal b addition s = (None, s9) \<longrightarrow> driver_Init b s9 = (None, s10) \<longrightarrow>
        New n b addition s = mkdir n b baseDir s10"
    by (simp add: New_def)
  from A B C F G H show ?thesis by blast
qed

theorem mkdir_always_creates_witness:
  "mkdir 2 mem_both ''/juicefs'' store_new =
     Some (None, snd (mem_MkdirResult root_dir ''juicefs'' store_new))
   \<and> (\<exists>mkR parent s1 res. driver_MkdirResult mem_both = Some mkR
         \<and> mkR parent (Base ''/juicefs'') s1 = ((res, None), snd (mem_MkdirResult root_dir ''juicefs'' store_new)))
   \<and> get 1 mem_strict_result (parent_of ''/juicefs'') store_new = Some (Inr root_dir, store_new)
   \<and> driver_MkdirResult mem_strict_result = Some mem_MkdirResult_strict
   \<and> mem_MkdirResult_strict root_dir (Base ''/juicefs'') store_new =
       ((None, Some (DriverError ''file exists'')), logged (CallMakeDir ''/'' ''juicefs'') store_new)
   \<and> mkdir 2 mem_strict_result ''/juicefs'' store_new =
       Some (Some (WithStack (DriverError ''file exists'')), logged (CallMakeDir ''/'' ''juicefs'') store_new)
   \<and> driver_MkdirResult (mem True False) = None
   \<and> driver_Mkdir (mem True False) = Some (mem_MakeDir True)
   \<and> mkdir 2 (mem True False) ''/juicefs'' store_new =
       Some (Some (WithStack (DriverError ''file exists'')), logged (CallMakeDir ''/'' ''juicefs'') store_new)
   \<and> driver_MkdirResult mem_no_Mkdir = None \<and> driver_Mkdir mem_no_Mkdir = None
   \<and> mkdir 2 mem_no_Mkdir ''/juicefs'' store_new = Some (Some NotImplement, store_new)
   \<and> mkdir 6 mem_both ''/juicefs/x'' empty_store =
       Some (None, snd (mem_MkdirResult juicefs_dir ''x''
              (logged (CallList ''/'') (snd (mem_MkdirResult root_dir ''juicefs''
                 (logged (CallList ''/'') empty_store))))))
   \<and> mkdir 6 (mem False False) ''/juicefs/x'' empty_store =
       Some (None, snd (mem_MakeDir False juicefs_dir ''x''
              (logged (CallList ''/'') (snd (mem_MakeDir False root_dir ''juicefs''
                 (logged (CallList ''/'') empty_store))))))
   \<and> Put 5 mem_strict_result ''a.txt'' (Inr ''hello'') 1 2 store_new =
       Some (Some (WithMessage (WithStack (DriverError ''file exists'')) ''failed to make dir [/juicefs]''),
             logged (CallMakeDir ''/'' ''juicefs'') store_new)
   \<and> (\<exists>s8. mkdir 5 (mem False False) (Dir (Join baseDir ''a.txt'')) store_new = Some (None, s8))
   \<and> New 5 mem_strict_result [] store_new =
       Some (Some (WithStack (DriverError ''file exists'')), logged (CallMakeDir ''/'' ''juicefs'') store_new)"
proof -
  let ?b = "mem False False"
  let ?t = "mem True False"
  let ?r = mem_strict_result
  let ?dup = "logged (CallMakeDir ''/'' ''juicefs'') store_new"
  let ?fe = "DriverError ''file exists''"
  let ?r1 = "snd (mem_MkdirResult root_dir ''juicefs'' store_new)"
  let ?p1 = "snd (mem_MakeDir False root_dir ''juicefs'' store_new)"
  have caps:
    "driver_MkdirResult ?t = None" "driver_Mkdir ?t = Some (mem_MakeDir True)"
    "driver_MkdirResult mem_no_Mkdir = None" "driver_Mkdir mem_no_Mkdir = None"
    "driver_Unmarshal ?r [] store_new = (None, store_new)" "driver_Init ?r store_new = (None, store_new)"
    "driver_MkdirResult ?r = Some mem_MkdirResult_strict"
    "driver_MkdirResult mem_both = Some mem_MkdirResult"
    "driver_MkdirResult ?b = None" "driver_Mkdir ?b = Some (mem_MakeDir False)"
    by (simp_all add: mem_no_Mkdir_def mem_strict_result_def mem_both_def mem_def)
  have a: "mkdir 2 mem_both ''/juicefs'' store_new = Some (None, ?r1)"
    by code_simp
  have A: "\<exists>mkR parent s1 res. driver_MkdirResult mem_both = Some mkR
         \<and> mkR parent (Base ''/juicefs'') s1 = ((res, None), ?r1)"
    using mkdir_always_creates [where n = 2 and b = mem_both and dir = "''/juicefs''" and s = store_new
        and s' = ?r1] a caps(8)
    by simp
  have b1: "get 1 ?r (parent_of ''/juicefs'') store_new = Some (Inr root_dir, store_new)"
    by code_simp
  have k1: "mem_MkdirResult_strict root_dir (Base ''/juicefs'') store_new = ((None, Some ?fe), ?dup)"
    by code_simp
  have B1: "mkdir 2 ?r ''/juicefs'' store_new = Some (Some (WithStack ?fe), ?dup)"
    using mkdir_always_creates [where n = 1 and b = ?r and dir = "''/juicefs''" and s = store_new
        and parent = root_dir and ?s1.0 = store_new and mkR = mem_MkdirResult_strict
        and res = None and e = "Some ?fe" and ?s4.0 = ?dup] b1 k1 caps(7)
    by (simp add: numeral_2_eq_2)
  have b2: "get 1 ?t (parent_of ''/juicefs'') store_new = Some (Inr root_dir, store_new)"
    by code_simp
  have k2: "mem_MakeDir True root_dir (Base ''/juicefs'') store_new = (Some ?fe, ?dup)"
    by code_simp
  have B2: "mkdir 2 ?t ''/juicefs'' store_new = Some (Some (WithStack ?fe), ?dup)"
    using mkdir_always_creates [where n = 1 and b = ?t and dir = "''/juicefs''" and s = store_new
        and parent = root_dir and ?s1.0 = store_new and mk = "mem_MakeDir True"
        and e' = "Some ?fe" and s4' = ?dup] b2 k2 caps(1,2)
    by (simp add: numeral_2_eq_2)
  have b3: "get 1 mem_no_Mkdir (parent_of ''/juicefs'') store_new = Some (Inr root_dir, store_new)"
    by code_simp
  have B3: "mkdir 2 mem_no_Mkdir ''/juicefs'' store_new = Some (Some NotImplement, store_new)"
    using mkdir_always_creates [where n = 1 and b = mem_no_Mkdir and dir = "''/juicefs''"
        and s = store_new and parent = root_dir and ?s1.0 = store_new] b3 caps(3,4)
    by (simp add: numeral_2_eq_2)
  let ?c1 = "logged (CallList ''/'') empty_store"
  have nf: "IsObjectNotFound (WithStack ObjectNotFound)"
    by (simp add: IsObjectNotFound_def)
  let ?d2 = "snd (mem_MkdirResult root_dir ''juicefs'' ?c1)"
  let ?d3 = "logged (CallList ''/'') ?d2"
  let ?d4 = "snd (mem_MkdirResult juicefs_dir ''x'' ?d3)"
  have d1: "get 5 mem_both (parent_of ''/juicefs/x'') empty_store = Some (Inl (WithStack ObjectNotFound), ?c1)"
    by code_simp
  have d2: "mkdir 5 mem_both (parent_of ''/juicefs/x'') ?c1 = Some (None, ?d2)"
    by code_simp
  have d3: "get 5 mem_both (parent_of ''/juicefs/x'') ?d2 = Some (Inr juicefs_dir, ?d3)"
    by code_simp
  have d4: "mem_MkdirResult juicefs_dir (Base ''/juicefs/x'') ?d3 = ((None, None), ?d4)"
    by code_simp
  have C1: "mkdir 6 mem_both ''/juicefs/x'' empty_store = Some (None, ?d4)"
    using mkdir_always_creates [where n = 5 and b = mem_both and dir = "''/juicefs/x''"
        and s = empty_store and err = "WithStack ObjectNotFound" and ?s0.0 = ?c1 and ?s2.0 = ?d2
        and parent' = juicefs_dir and ?s3.0 = ?d3 and mkR' = mem_MkdirResult and res' = None
        and f = None and ?s5.0 = ?d4] d1 d2 d3 d4 nf caps(8)
    by simp
  let ?c2 = "snd (mem_MakeDir False root_dir ''juicefs'' ?c1)"
  let ?c3 = "logged (CallList ''/'') ?c2"
  let ?c4 = "snd (mem_MakeDir False juicefs_dir ''x'' ?c3)"
  have c1: "get 5 ?b (parent_of ''/juicefs/x'') empty_store = Some (Inl (WithStack ObjectNotFound), ?c1)"
    by code_simp
  have c2: "mkdir 5 ?b (parent_of ''/juicefs/x'') ?c1 = Some (None, ?c2)"
    by code_simp
  have c3: "get 5 ?b (parent_of ''/juicefs/x'') ?c2 = Some (Inr juicefs_dir, ?c3)"
    by code_simp
  have c4: "mem_MakeDir False juicefs_dir (Base ''/juicefs/x'') ?c3 = (None, ?c4)"
    by code_simp
  have C2: "mkdir 6 ?b ''/juicefs/x'' empty_store = Some (None, ?c4)"
    using mkdir_always_creates [where n = 5 and b = ?b and dir = "''/juicefs/x''" and s = empty_store
        and err = "WithStack ObjectNotFound" and ?s0.0 = ?c1 and ?s2.0 = ?c2
        and parent' = juicefs_dir and ?s3.0 = ?c3 and mk' = "mem_MakeDir False"
        and f' = None and s5' = ?c4] c1 c2 c3 c4 nf caps(9,10)
    by simp
  have f: "mkdir 5 ?r (Dir (Join baseDir ''a.txt'')) store_new = Some (Some (WithStack ?fe), ?dup)"
    by code_simp
  have F: "Put 5 ?r ''a.txt'' (Inr ''hello'') 1 2 store_new =
      Some (Some (WithMessage (WithStack ?fe) ''failed to make dir [/juicefs]''), ?dup)"
    using mkdir_always_creates [where n = 5 and b = ?r and name = "''a.txt''" and s = store_new
        and ?e1.0 = "WithStack ?fe" and ?s6.0 = ?dup
        and data = "''hello''" and ?now1.0 = 1 and ?now2.0 = 2] f
    by simp
  let ?g = "snd (mem_Put juicefs_dir (upload ''a.txt'' ''hello'' 1 2) (logged (CallList ''/'') ?p1))"
  have g: "Put 5 ?b ''a.txt'' (Inr ''hello'') 1 2 store_new = Some (None, ?g)"
    by code_simp
  have G: "\<exists>s8. mkdir 5 ?b (Dir (Join baseDir ''a.txt'')) store_new = Some (None, s8)"
    using mkdir_always_creates [where n = 5 and b = ?b and name = "''a.txt''" and s = store_new
        and data = "''hello''" and ?now1.0 = 1 and ?now2.0 = 2 and ?s7.0 = ?g] g
    by simp
  have h: "mkdir 5 ?r baseDir store_new = Some (Some (WithStack ?fe), ?dup)"
    by code_simp
  have H: "New 5 ?r [] store_new = Some (Some (WithStack ?fe), ?dup)"
    using mkdir_always_creates [where n = 5 and b = ?r and addition = "[]" and s = store_new
        and ?s9.0 = store_new and ?s10.0 = store_new] h caps(5,6)
    by simp
  show ?thesis
    by (intro conjI a A b1 caps(7) k1 B1 caps(1) caps(2) B2 caps(3) caps(4) B3 C1 C2 F G H)
qed

section \<open>Dispatch on the optional capabilities\<close>

text \<open>
  Claim C6, as amended. Once the body has been read and the parent directory of the
  target created and resolved, Put calls the result-returning Put of the backend with
  the parent and the stream of the upload when there is one, the plain Put when there
  is only that, and returns the error of that call under a stack trace, in the state
  the call left; with neither variant it fails with NotImplement. Once the parent of a
  directory has been resolved, mkdir chooses between the two MakeDir variants in the
  same way. The earlier steps of Put fail on every backend alike: a failure to read the
  body is returned as it is, a failure of the creation of the parent directory and a
  failure of its resolution are returned under a message, the cause kept. So on a
  backend with neither Put variant a Write never succeeds: what it returns is
  NotImplement when it reaches the dispatch and the failure of the earlier step
  otherwise. And it does return, on every backend without the direct getter whose root
  does not fail with NotFound.
\<close>

theorem variant_dispatch:
  "(mkdir n b (Dir (Join baseDir name)) s = Some (None, s1) \<longrightarrow>
    get n b (Dir (Join baseDir name)) s1 = Some (Inr parentDir, s2) \<longrightarrow>
      (driver_PutResult b = Some putR \<longrightarrow>
         putR parentDir
           \<lparr>Obj = ObjectPtr \<lparr>ID = [], Path = [], Name = Base (Join baseDir name),
                              Size = int (length data), Modified = now1, Ctime = now2,
                              IsFolder = False\<rparr>,
            Reader = data\<rparr> s2 = ((res, err), s3) \<longrightarrow>
         Put n b name (Inr data) now1 now2 s = Some (map_option WithStack err, s3))
    \<and> (driver_PutResult b = None \<longrightarrow> driver_Put b = Some put \<longrightarrow>
         put parentDir
           \<lparr>Obj = ObjectPtr \<lparr>ID = [], Path = [], Name = Base (Join baseDir name),
                              Size = int (length data), Modified = now1, Ctime = now2,
                              IsFolder = False\<rparr>,
            Reader = data\<rparr> s2 = (err', s3') \<longrightarrow>
         Put n b name (Inr data) now1 now2 s = Some (map_option WithStack err', s3'))
    \<and> (driver_PutResult b = None \<longrightarrow> driver_Put b = None \<longrightarrow>
         Put n b name (Inr data) now1 now2 s = Some (Some NotImplement, s2)))
   \<and> (get n b (parent_of dir) s = Some (Inr parent, s4) \<longrightarrow>
      (driver_MkdirResult b = Some mkR \<longrightarrow> mkR parent (Base dir) s4 = ((res', e), s5) \<longrightarrow>
         mkdir (Suc n) b dir s = Some (map_option WithStack e, s5))
    \<and> (driver_MkdirResult b = None \<longrightarrow> driver_Mkdir b = Some mk \<longrightarrow>
         mk parent (Base dir) s4 = (e', s5') \<longrightarrow>
         mkdir (Suc n) b dir s = Some (map_option WithStack e', s5'))
    \<and> (driver_MkdirResult b = None \<longrightarrow> driver_Mkdir b = None \<longrightarrow>
         mkdir (Suc n) b dir s = Some (Some NotImplement, s4)))
   \<and> Put n b name (Inl err0) now1 now2 s = Some (Some err0, s)
   \<and> (mkdir n b (Dir (Join baseDir name)) s = Some (Some e1, s6) \<longrightarrow>
        Put n b name (Inr data) now1 now2 s =
          Some (Some (WithMessage e1 ''failed to make dir [/juicefs]''), s6))
   \<and> (mkdir n b (Dir (Join baseDir name)) s = Some (None, s7) \<longrightarrow>
        get n b (Dir (Join baseDir name)) s7 = Some (Inl e2, s8) \<longrightarrow>
        Put n b name (Inr data) now1 now2 s =
          Some (Some (WithMessage e2 ''failed to get dir [/juicefs]''), s8))
   \<and> (driver_PutResult b = None \<longrightarrow> driver_Put b = None \<longrightarrow>
        Put n b name body now1 now2 s = Some (r, s') \<longrightarrow> r \<noteq> None)
   \<and> (driver_Getter b = None \<longrightarrow>
        (\<forall>t e0 t'. root_folder b t = (Inl e0, t') \<longrightarrow> \<not> IsObjectNotFound e0) \<longrightarrow>
        (\<exists>m r'. Put m b name body now1 now2 s = Some r'))"
proof -
  let ?d = "Dir (Join baseDir name)"
  let ?st = "\<lparr>Obj = ObjectPtr \<lparr>ID = [], Path = [], Name = Base (Join baseDir name),
                              Size = int (length data), Modified = now1, Ctime = now2,
                              IsFolder = False\<rparr>,
            Reader = data\<rparr>"
  have A: "mkdir n b ?d s = Some (None, s1) \<longrightarrow>
    get n b ?d s1 = Some (Inr parentDir, s2) \<longrightarrow>
      (driver_PutResult b = Some putR \<longrightarrow> putR parentDir ?st s2 = ((res, err), s3) \<longrightarrow>
         Put n b name (Inr data) now1 now2 s = Some (map_option WithStack err, s3))
    \<and> (driver_PutResult b = None \<longrightarrow> driver_Put b = Some put \<longrightarrow>
         put parentDir ?st s2 = (err', s3') \<longrightarrow>
         Put n b name (Inr data) now1 now2 s = Some (map_option WithStack err', s3'))
    \<and> (driver_PutResult b = None \<longrightarrow> driver_Put b = None \<longrightarrow>
         Put n b name (Inr data) now1 now2 s = Some (Some NotImplement, s2))"
    by (simp add: Put_def upload_def WithStack_opt_def)
  have B: "get n b (parent_of dir) s = Some (Inr parent, s4) \<longrightarrow>
      (driver_MkdirResult b = Some mkR \<longrightarrow> mkR parent (Base dir) s4 = ((res', e), s5) \<longrightarrow>
         mkdir (Suc n) b dir s = Some (map_option WithStack e, s5))
    \<and> (driver_MkdirResult b = None \<longrightarrow> driver_Mkdir b = Some mk \<longrightarrow>
         mk parent (Base dir) s4 = (e', s5') \<longrightarrow>
         mkdir (Suc n) b dir s = Some (map_option WithStack e', s5'))
    \<and> (driver_MkdirResult b = None \<longrightarrow> driver_Mkdir b = None \<longrightarrow>
         mkdir (Suc n) b dir s = Some (Some NotImplement, s4))"
    by (simp add: mkdir.simps MakeDir_def WithStack_opt_def)
  have C1: "Put n b name (Inl err0) now1 now2 s = Some (Some err0, s)"
    by (simp add: Put_def)
  have C2: "mkdir n b ?d s = Some (Some e1, s6) \<longrightarrow>
        Put n b name (Inr data) now1 now2 s =
          Some (Some (WithMessage e1 ''failed to make dir [/juicefs]''), s6)"
    by (simp add: Put_def)
  have C3: "mkdir n b ?d s = Some (None, s7) \<longrightarrow>
        get n b ?d s7 = Some (Inl e2, s8) \<longrightarrow>
        Put n b name (Inr data) now1 now2 s =
          Some (Some (WithMessage e2 ''failed to get dir [/juicefs]''), s8)"
    by (simp add: Put_def)
  have D: "driver_PutResult b = None \<longrightarrow> driver_Put b = None \<longrightarrow>
        Put n b name body now1 now2 s = Some (r, s') \<longrightarrow> r \<noteq> None"
    by (auto simp: Put_def Let_def split: sum.splits option.splits prod.splits)
  have E: "driver_Getter b = None \<longrightarrow>
        (\<forall>t e0 t'. root_folder b t = (Inl e0, t') \<longrightarrow> \<not> IsObjectNotFound e0) \<longrightarrow>
        (\<exists>m r'. Put m b name body now1 now2 s = Some r')"
  proof (intro impI)
    assume g: "driver_Getter b = None"
      and r: "\<forall>t e0 t'. root_folder b t = (Inl e0, t') \<longrightarrow> \<not> IsObjectNotFound e0"
    show "\<exists>m r'. Put m b name body now1 now2 s = Some r'"
    proof (cases body)
      case (Inl e)
      then show ?thesis by (simp add: Put_def)
    next
      case (Inr bytes)
      have "\<exists>k r'. mkdir k b ?d s = Some r'"
      proof (rule mkdir_returns [OF g])
        fix t e0 t'
        assume "root_folder b t = (Inl e0, t')"
        with r show "\<not> IsObjectNotFound e0"
          by blast
      qed
      then obtain k1 mr t1 where m: "mkdir k1 b ?d s = Some (mr, t1)"
        by auto
      obtain k2 gr t2 where gg: "get k2 b ?d t1 = Some (gr, t2)"
        using get_returns [OF g, where p = ?d and s = t1] by auto
      have m': "mkdir (max k1 k2) b ?d s = Some (mr, t1)"
        using mkdir_mono [OF m] by simp
      have g': "get (max k1 k2) b ?d t1 = Some (gr, t2)"
        using get_mono [OF gg] by simp
      have "\<exists>r'. Put (max k1 k2) b name body now1 now2 s = Some r'"
        using m' g' Inr
        by (auto simp: Put_def Let_def split: option.splits sum.splits prod.splits)
      then show ?thesis by blast
    qed
  qed
  from A B C1 C2 C3 D E show ?thesis by blast
qed

theorem variant_dispatch_witness:
  "driver_PutResult mem_both = Some mem_PutResult
   \<and> Put 5 mem_both ''a.txt'' (Inr ''hello'') 1 2 store_new =
       Some (None, snd (mem_PutResult juicefs_dir (upload ''a.txt'' ''hello'' 1 2)
                         (logged (CallList ''/'') (snd (mem_MkdirResult root_dir ''juicefs'' store_new)))))
   \<and> driver_PutResult (mem False False) = None \<and> driver_Put (mem False False) = Some mem_Put
   \<and> Put 5 (mem False False) ''a.txt'' (Inr ''hello'') 1 2 store_new =
       Some (None, snd (mem_Put juicefs_dir (upload ''a.txt'' ''hello'' 1 2)
                         (logged (CallList ''/'') (snd (mem_MakeDir False root_dir ''juicefs'' store_new)))))
   \<and> driver_PutResult (mem_no_Put False) = None \<and> driver_Put (mem_no_Put False) = None
   \<and> Put 5 (mem_no_Put False) ''a.txt'' (Inr ''hello'') 1 2 store_new =
       Some (Some NotImplement,
             logged (CallList ''/'') (snd (mem_MakeDir False root_dir ''juicefs'' store_new)))
   \<and> driver_MkdirResult mem_both = Some mem_MkdirResult
   \<and> mkdir 2 mem_both ''/juicefs'' empty_store =
       Some (None, snd (mem_MkdirResult root_dir ''juicefs'' empty_store))
   \<and> driver_MkdirResult (mem False False) = None
   \<and> driver_Mkdir (mem False False) = Some (mem_MakeDir False)
   \<and> mkdir 2 (mem False False) ''/juicefs'' empty_store =
       Some (None, snd (mem_MakeDir False root_dir ''juicefs'' empty_store))
   \<and> driver_MkdirResult mem_no_Mkdir = None \<and> driver_Mkdir mem_no_Mkdir = None
   \<and> mkdir 2 mem_no_Mkdir ''/juicefs'' empty_store = Some (Some NotImplement, empty_store)
   \<and> Put 5 (mem_no_Put False) ''a.txt'' (Inl (DriverError ''read'')) 1 2 store_new =
       Some (Some (DriverError ''read''), store_new)
   \<and> Put 5 (mem_no_Put True) ''a.txt'' (Inr ''hello'') 1 2 store_new =
       Some (Some (WithMessage (WithStack (DriverError ''file exists'')) ''failed to make dir [/juicefs]''),
             logged (CallMakeDir ''/'' ''juicefs'') store_new)
   \<and> Put 6 (mem_no_Put False) ''x/a.txt'' (Inr ''hello'') 1 2 store_blocked =
       Some (Some (WithMessage (WithMessage (WithStack NotFolder) ''failed get parent list'')
                     ''failed to get dir [/juicefs]''),
             logged (CallList ''/'')
               (snd (mem_MakeDir False
                       (ObjWrapName ''juicefs'' (ObjectPtr (entry_Obj (file_entry ''/'' ''juicefs'' 0 0 []))))
                       ''x'' (logged (CallList ''/'') store_blocked))))
   \<and> Some (WithMessage (WithStack (DriverError ''file exists'')) ''failed to make dir [/juicefs]'') \<noteq> None
   \<and> driver_Getter (mem_no_Put False) = None
   \<and> root_folder (mem_no_Put False) store_new = (Inr root_dir, store_new)
   \<and> (\<exists>m r'. Put m (mem_no_Put False) ''a.txt'' (Inr ''hello'') 1 2 store_new = Some r')"
proof -
  let ?st = "upload ''a.txt'' ''hello'' 1 2"
  let ?st' = "\<lparr>Obj = ObjectPtr \<lparr>ID = [], Path = [], Name = Base (Join baseDir ''a.txt''),
                              Size = int (length ''hello''), Modified = 1, Ctime = 2,
                              IsFolder = False\<rparr>,
            Reader = ''hello''\<rparr>"
  let ?d = "Dir (Join baseDir ''a.txt'')"
  let ?r1 = "snd (mem_MkdirResult root_dir ''juicefs'' store_new)"
  let ?r3 = "snd (mem_PutResult juicefs_dir ?st (logged (CallList ''/'') ?r1))"
  let ?p1 = "snd (mem_MakeDir False root_dir ''juicefs'' store_new)"
  let ?p3 = "snd (mem_Put juicefs_dir ?st (logged (CallList ''/'') ?p1))"
  have caps:
    "driver_PutResult mem_both = Some mem_PutResult"
    "driver_PutResult (mem False False) = None" "driver_Put (mem False False) = Some mem_Put"
    "driver_PutResult (mem_no_Put False) = None" "driver_Put (mem_no_Put False) = None"
    "driver_PutResult (mem_no_Put True) = None" "driver_Put (mem_no_Put True) = None"
    "driver_MkdirResult mem_both = Some mem_MkdirResult"
    "driver_MkdirResult (mem False False) = None"
    "driver_Mkdir (mem False False) = Some (mem_MakeDir False)"
    "driver_MkdirResult mem_no_Mkdir = None" "driver_Mkdir mem_no_Mkdir = None"
    "driver_Getter (mem_no_Put False) = None"
    by (simp_all add: mem_both_def mem_no_Put_def mem_no_Mkdir_def mem_def)
  have m1: "mkdir 5 mem_both ?d store_new = Some (None, ?r1)"
    by code_simp
  have g1: "get 5 mem_both ?d ?r1 = Some (Inr juicefs_dir, logged (CallList ''/'') ?r1)"
    by code_simp
  have u1: "mem_PutResult juicefs_dir ?st' (logged (CallList ''/'') ?r1) = ((None, None), ?r3)"
    by code_simp
  have P1: "Put 5 mem_both ''a.txt'' (Inr ''hello'') 1 2 store_new = Some (None, ?r3)"
    using variant_dispatch [where n = 5 and b = mem_both and name = "''a.txt''" and s = store_new
        and ?s1.0 = ?r1 and parentDir = juicefs_dir and ?s2.0 = "logged (CallList ''/'') ?r1"
        and putR = mem_PutResult and data = "''hello''" and ?now1.0 = 1 and ?now2.0 = 2
        and res = None and err = None and ?s3.0 = ?r3] m1 g1 u1 caps(1)
    by simp
  have m2: "mkdir 5 (mem False False) ?d store_new = Some (None, ?p1)"
    by code_simp
  have g2: "get 5 (mem False False) ?d ?p1 = Some (Inr juicefs_dir, logged (CallList ''/'') ?p1)"
    by code_simp
  have u2: "mem_Put juicefs_dir ?st' (logged (CallList ''/'') ?p1) = (None, ?p3)"
    by code_simp
  have P2: "Put 5 (mem False False) ''a.txt'' (Inr ''hello'') 1 2 store_new = Some (None, ?p3)"
    using variant_dispatch [where n = 5 and b = "mem False False" and name = "''a.txt''"
        and s = store_new and ?s1.0 = ?p1 and parentDir = juicefs_dir
        and ?s2.0 = "logged (CallList ''/'') ?p1" and put = mem_Put and data = "''hello''"
        and ?now1.0 = 1 and ?now2.0 = 2 and err' = None and s3' = ?p3] m2 g2 u2 caps(2,3)
    by simp
  have m3: "mkdir 5 (mem_no_Put False) ?d store_new = Some (None, ?p1)"
    by code_simp
  have g3: "get 5 (mem_no_Put False) ?d ?p1 = Some (Inr juicefs_dir, logged (CallList ''/'') ?p1)"
    by code_simp
  have P3: "Put 5 (mem_no_Put False) ''a.txt'' (Inr ''hello'') 1 2 store_new =
      Some (Some NotImplement, logged (CallList ''/'') ?p1)"
    using variant_dispatch [where n = 5 and b = "mem_no_Put False" and name = "''a.txt''"
        and s = store_new and ?s1.0 = ?p1 and parentDir = juicefs_dir
        and ?s2.0 = "logged (CallList ''/'') ?p1" and data = "''hello''"
        and ?now1.0 = 1 and ?now2.0 = 2] m3 g3 caps(4,5)
    by simp
  have r1: "get 1 mem_both (parent_of ''/juicefs'') empty_store = Some (Inr root_dir, empty_store)"
    by code_simp
  have k1: "mem_MkdirResult root_dir (Base ''/juicefs'') empty_store =
      ((None, None), snd (mem_MkdirResult root_dir ''juicefs'' empty_store))"
    by code_simp
  have M1: "mkdir 2 mem_both ''/juicefs'' empty_store =
      Some (None, snd (mem_MkdirResult root_dir ''juicefs'' empty_store))"
    using variant_dispatch [where n = 1 and b = mem_both and dir = "''/juicefs''" and s = empty_store
        and parent = root_dir and ?s4.0 = empty_store and mkR = mem_MkdirResult and res' = None
        and e = None and ?s5.0 = "snd (mem_MkdirResult root_dir ''juicefs'' empty_store)"]
      r1 k1 caps(8)
    by (simp add: numeral_2_eq_2)
  have r2: "get 1 (mem False False) (parent_of ''/juicefs'') empty_store = Some (Inr root_dir, empty_store)"
    by code_simp
  have k2: "mem_MakeDir False root_dir (Base ''/juicefs'') empty_store =
      (None, snd (mem_MakeDir False root_dir ''juicefs'' empty_store))"
    by code_simp
  have M2: "mkdir 2 (mem False False) ''/juicefs'' empty_store =
      Some (None, snd (mem_MakeDir False root_dir ''juicefs'' empty_store))"
    using variant_dispatch [where n = 1 and b = "mem False False" and dir = "''/juicefs''"
        and s = empty_store and parent = root_dir and ?s4.0 = empty_store
        and mk = "mem_MakeDir False" and e' = None
        and s5' = "snd (mem_MakeDir False root_dir ''juicefs'' empty_store)"]
      r2 k2 caps(9,10)
    by (simp add: numeral_2_eq_2)
  have r3: "get 1 mem_no_Mkdir (parent_of ''/juicefs'') empty_store = Some (Inr root_dir, empty_store)"
    by code_simp
  have M3: "mkdir 2 mem_no_Mkdir ''/juicefs'' empty_store = Some (Some NotImplement, empty_store)"
    using variant_dispatch [where n = 1 and b = mem_no_Mkdir and dir = "''/juicefs''"
        and s = empty_store and parent = root_dir and ?s4.0 = empty_store] r3 caps(11,12)
    by (simp add: numeral_2_eq_2)
  have R: "Put 5 (mem_no_Put False) ''a.txt'' (Inl (DriverError ''read'')) 1 2 store_new =
      Some (Some (DriverError ''read''), store_new)"
    using variant_dispatch [where n = 5 and b = "mem_no_Put False" and name = "''a.txt''"
        and s = store_new and ?err0.0 = "DriverError ''read''" and ?now1.0 = 1 and ?now2.0 = 2]
    by simp
  let ?dup = "logged (CallMakeDir ''/'' ''juicefs'') store_new"
  let ?e = "WithMessage (WithStack (DriverError ''file exists'')) ''failed to make dir [/juicefs]''"
  have f0: "mkdir 5 (mem_no_Put True) ?d store_new = Some (Some (WithStack (DriverError ''file exists'')), ?dup)"
    by code_simp
  have f: "Put 5 (mem_no_Put True) ''a.txt'' (Inr ''hello'') 1 2 store_new = Some (Some ?e, ?dup)"
    using variant_dispatch [where n = 5 and b = "mem_no_Put True" and name = "''a.txt''"
        and s = store_new and ?e1.0 = "WithStack (DriverError ''file exists'')" and ?s6.0 = ?dup
        and data = "''hello''" and ?now1.0 = 1 and ?now2.0 = 2] f0
    by simp
  let ?dx = "Dir (Join baseDir ''x/a.txt'')"
  let ?q1 = "snd (mem_MakeDir False
                       (ObjWrapName ''juicefs'' (ObjectPtr (entry_Obj (file_entry ''/'' ''juicefs'' 0 0 []))))
                       ''x'' (logged (CallList ''/'') store_blocked))"
  let ?nf = "WithMessage (WithStack NotFolder) ''failed get parent list''"
  have q1: "mkdir 6 (mem_no_Put False) ?dx store_blocked = Some (None, ?q1)"
    by code_simp
  have q2: "get 6 (mem_no_Put False) ?dx ?q1 = Some (Inl ?nf, logged (CallList ''/'') ?q1)"
    by code_simp
  have Q: "Put 6 (mem_no_Put False) ''x/a.txt'' (Inr ''hello'') 1 2 store_blocked =
      Some (Some (WithMessage ?nf ''failed to get dir [/juicefs]''), logged (CallList ''/'') ?q1)"
    using variant_dispatch [where n = 6 and b = "mem_no_Put False" and name = "''x/a.txt''"
        and s = store_blocked and ?s7.0 = ?q1 and ?e2.0 = ?nf
        and ?s8.0 = "logged (CallList ''/'') ?q1"
        and data = "''hello''" and ?now1.0 = 1 and ?now2.0 = 2] q1 q2
    by simp
  have N: "Some ?e \<noteq> None"
    using variant_dispatch [where n = 5 and b = "mem_no_Put True" and name = "''a.txt''"
        and s = store_new and body = "Inr ''hello''" and ?now1.0 = 1 and ?now2.0 = 2
        and r = "Some ?e" and s' = ?dup] f caps(6,7)
    by simp
  have rt: "\<forall>t e0 t'. root_folder (mem_no_Put False) t = (Inl e0, t') \<longrightarrow> \<not> IsObjectNotFound e0"
    by (simp add: root_folder_def mem_no_Put_def mem_def)
  have rs: "root_folder (mem_no_Put False) store_new = (Inr root_dir, store_new)"
    by (simp add: root_folder_def mem_no_Put_def mem_def root_dir_def RootName_def)
  have T: "\<exists>m r'. Put m (mem_no_Put False) ''a.txt'' (Inr ''hello'') 1 2 store_new = Some r'"
    using variant_dispatch [where b = "mem_no_Put False" and name = "''a.txt''"
        and s = store_new and body = "Inr ''hello''" and ?now1.0 = 1 and ?now2.0 = 2] caps(13) rt
    by simp
  show ?thesis
    by (intro conjI caps(1) P1 caps(2) caps(3) P2 caps(4) caps(5) P3 caps(8) M1 caps(9) caps(10) M2
        caps(11) caps(12) M3 R f Q N caps(13) rs T)
qed

text \<open>
  Claim C6 as stated fails where an earlier step of Put fails: on a backend with neither
  Put variant that refuses to create a directory twice, a Write into the existing
  namespace prefix fails with the backend's error, whose cause is not NotImplement.
\<close>

theorem variant_dispatch_counterexample:
  "driver_PutResult (mem_no_Put True) = None \<and> driver_Put (mem_no_Put True) = None
   \<and> Put 5 (mem_no_Put True) ''a.txt'' (Inr ''hello'') 1 2 store_new =
       Some (Some (WithMessage (WithStack (DriverError ''file exists'')) ''failed to make dir [/juicefs]''),
             logged (CallMakeDir ''/'' ''juicefs'') store_new)
   \<and> Cause (WithMessage (WithStack (DriverError ''file exists'')) ''failed to make dir [/juicefs]'')
       \<noteq> NotImplement"
proof -
  have f: "Put 5 (mem_no_Put True) ''a.txt'' (Inr ''hello'') 1 2 store_new =
       Some (Some (WithMessage (WithStack (DriverError ''file exists'')) ''failed to make dir [/juicefs]''),
             logged (CallMakeDir ''/'' ''juicefs'') store_new)"
    by code_simp
  show ?thesis
    using f by (simp add: mem_no_Put_def mem_def)
qed

end
